theory Spec2Isabelle
  imports Complex_Main "HOL-Library.AList" "HOL-Library.Log_Nat"
begin

section \<open>Data model\<close>

text \<open>
  The declarations of \<^verbatim>\<open>src/types\<close> are not part of the sources; the types below are
  read off the way the hooks and components use them.

  A calendar date is the string \<^verbatim>\<open>YYYY-MM-DD\<close> and a month the string \<^verbatim>\<open>YYYY-MM\<close>.
  They are represented by their numeric fields, so that \<^verbatim>\<open>date.startsWith(month)\<close> is
  equality of the year and month fields.
\<close>

type_synonym date = "int \<times> int \<times> int"
type_synonym month = "int \<times> int"

definition startsWith :: "date \<Rightarrow> month \<Rightarrow> bool" where
  "startsWith d m = (case d of (y, mo, _) \<Rightarrow> (y, mo) = m)"

datatype AttendanceStatus = OnTime | Late | Absent | OnDuty

text \<open>
  A field that an object may lack is an \<open>option\<close>. JavaScript's \<^verbatim>\<open>x || 0\<close> on a
  numeric field: a missing field reads as 0, a number as itself.
\<close>

definition or0 :: "'a::zero option \<Rightarrow> 'a" where
  "or0 x = (case x of None \<Rightarrow> 0 | Some v \<Rightarrow> v)"

record FacultyRecord =
  fac_empId :: int
  fac_name :: "string option"
  fac_dept :: "string option"
  fac_designation :: "string option"
  fac_salary :: "rat option"
  fac_casualLeaves :: "int option"

record AttendanceRecord =
  att_empId :: int
  att_date :: date
  att_inTime :: string
  att_status :: AttendanceStatus
  att_leaveApplicationId :: "string option"

record Holiday =
  hol_id :: date
  hol_date :: date
  hol_description :: string

record MonthlySummary =
  ms_empId :: int
  ms_name :: "string option"
  ms_dept :: "string option"
  ms_designation :: "string option"
  ms_monthlySalary :: "rat option"
  presentDays :: int
  permissions :: int
  halfDayLeaves :: int
  casualLeavesAvailable :: int
  casualLeavesUsed :: int
  unpaidLeave :: int
  totalLeaves :: rat
  payableDays :: rat
  calculatedSalary :: "rat option"

section \<open>Payroll calculator: \<^verbatim>\<open>useSummaryData\<close>\<close>

text \<open>
  A JavaScript number is an IEEE 754 double. A finite double is represented by the rational
  number it denotes (the two zeros are not told apart), and a number that is not finite
  (\<^verbatim>\<open>NaN\<close> or an infinity) by \<open>None\<close>. The counts of records, the balances and the
  numbers of days are integers and halves far below \<open>2^53\<close>, where the arithmetic of doubles
  is exact; they are \<open>int\<close> and \<open>rat\<close>. A salary is held by the records as the decimal that
  the data writes, and the number that JavaScript reads from it is the nearest double.

  Reading a decimal, dividing and multiplying round as IEEE 754 prescribes: to the nearest
  double, to the one with the even significand on a tie. \<open>exponentOf x\<close> is the exponent
  \<open>e\<close> with \<open>2^e \<le> |x| < 2^(e+1)\<close>; a double has 53 significant bits, so that the doubles
  around \<open>x\<close> are the multiples of \<open>2^(e-52)\<close>, and of \<open>2^(-1074)\<close> below the normal range.
  A result of magnitude \<open>2^1024\<close> or more is an infinity.
\<close>

definition roundTiesToEven :: "rat \<Rightarrow> int" where
  "roundTiesToEven x =
     (let n = \<lfloor>x\<rfloor>; r = x - of_int n
      in if r < 1 / 2 then n else if 1 / 2 < r then n + 1 else if even n then n else n + 1)"

definition exponentOf :: "rat \<Rightarrow> int" where
  "exponentOf x =
     (if 1 \<le> \<bar>x\<bar> then bitlen \<lfloor>\<bar>x\<bar>\<rfloor> - 1 else - bitlen (\<lceil>1 / \<bar>x\<bar>\<rceil> - 1))"

definition toDouble :: "rat \<Rightarrow> rat option" where
  "toDouble x =
     (if x = 0 then Some 0
      else
        let e = max (exponentOf x) (- 1022);
            ulp = 2 powi (e - 52);
            y = of_int (roundTiesToEven (x / ulp)) * ulp
        in if 2 ^ 1024 \<le> \<bar>y\<bar> then None else Some y)"

text \<open>
  \<^verbatim>\<open>a / b\<close> and \<^verbatim>\<open>a * b\<close>. A quotient whose divisor is 0 is \<^verbatim>\<open>NaN\<close> or an infinity, and a
  product with a factor that is not finite is not finite.
\<close>

definition js_div :: "rat \<Rightarrow> rat \<Rightarrow> rat option" where
  "js_div a b = (if b = 0 then None else toDouble (a / b))"

definition js_mul :: "rat option \<Rightarrow> rat option \<Rightarrow> rat option" where
  "js_mul a b =
     (case a of None \<Rightarrow> None | Some x \<Rightarrow> (case b of None \<Rightarrow> None | Some y \<Rightarrow> toDouble (x * y)))"

text \<open>
  \<^verbatim>\<open>x.toFixed(2)\<close> prints the decimal \<open>n / 100\<close> for the integer \<open>n\<close> that brings
  \<open>n / 100\<close> closest to the magnitude of \<open>x\<close>, the larger \<open>n\<close> when two are equally close;
  at \<open>10^21\<close> and beyond it prints the number itself. \<open>toFixed2 x\<close> is the number printed.
  \<^verbatim>\<open>parseFloat\<close> reads it back as the nearest double; a number that is not finite is
  printed and read back as it is.
\<close>

definition toFixed2 :: "rat \<Rightarrow> rat" where
  "toFixed2 x =
     (if \<bar>x\<bar> \<ge> 10 ^ 21 then x
      else if x < 0 then - (of_int \<lfloor>- x * 100 + 1 / 2\<rfloor> / 100)
      else of_int \<lfloor>x * 100 + 1 / 2\<rfloor> / 100)"

definition parseFloat_toFixed2 :: "rat option \<Rightarrow> rat option" where
  "parseFloat_toFixed2 x = (case x of None \<Rightarrow> None | Some v \<Rightarrow> toDouble (toFixed2 v))"

record SummaryData =
  facultyList :: "FacultyRecord list"
  rawAttendance :: "AttendanceRecord list"
  holidays :: "Holiday list"
  selectedMonth :: month
  monthlyWorkingDays :: int
  permissionLimit :: int
  summaryData :: "MonthlySummary list"

text \<open>
  The \<^verbatim>\<open>Map\<close> built by \<^verbatim>\<open>attendanceForMonth.forEach\<close>: each record is pushed onto the
  list stored under its employee id.
\<close>

definition attendanceByEmp :: "AttendanceRecord list \<Rightarrow> int \<rightharpoonup> AttendanceRecord list" where
  "attendanceByEmp recs =
     foldl (\<lambda>m rec. m(att_empId rec \<mapsto> (case m (att_empId rec) of None \<Rightarrow> [] | Some rs \<Rightarrow> rs) @ [rec]))
       Map.empty recs"

definition holidaysInMonth :: "SummaryData \<Rightarrow> int" where
  "holidaysInMonth s = int (length (filter (\<lambda>h. startsWith (hol_date h) (selectedMonth s)) (holidays s)))"

definition actualWorkingDays :: "SummaryData \<Rightarrow> int" where
  "actualWorkingDays s = max 0 (monthlyWorkingDays s - holidaysInMonth s)"

text \<open>The body of \<^verbatim>\<open>facultyList.map(faculty => ...)\<close> in \<^verbatim>\<open>calculateSummary\<close>.\<close>

definition summaryRow ::
  "int \<Rightarrow> int \<Rightarrow> (int \<rightharpoonup> AttendanceRecord list) \<Rightarrow> FacultyRecord \<Rightarrow> MonthlySummary" where
  "summaryRow workingDays limit byEmp faculty =
     (let records = (case byEmp (fac_empId faculty) of None \<Rightarrow> [] | Some rs \<Rightarrow> rs);
          presentDays = int (length (filter (\<lambda>r. att_status r \<noteq> Absent) records));
          absentDays = max 0 (workingDays - presentDays);
          casualLeavesAvailable = or0 (fac_casualLeaves faculty);
          casualLeavesUsed = min absentDays casualLeavesAvailable;
          unpaidLeave = absentDays - casualLeavesUsed;
          lateRecords = int (length (filter (\<lambda>r. att_status r = Late) records));
          permissions = min lateRecords limit;
          halfDayLeaves = max 0 (lateRecords - limit);
          totalLeaves = of_int unpaidLeave + of_int halfDayLeaves * (1 / 2);
          payableDays = max 0 (of_int workingDays - totalLeaves);
          salary = toDouble (or0 (fac_salary faculty));
          calculatedSalary =
            (if workingDays > 0
             then js_mul (js_div payableDays (of_int workingDays)) salary
             else Some 0)
      in \<lparr> ms_empId = fac_empId faculty,
           ms_name = fac_name faculty,
           ms_dept = fac_dept faculty,
           ms_designation = fac_designation faculty,
           ms_monthlySalary = fac_salary faculty,
           presentDays = presentDays,
           permissions = permissions,
           halfDayLeaves = halfDayLeaves,
           casualLeavesAvailable = casualLeavesAvailable,
           casualLeavesUsed = casualLeavesUsed,
           unpaidLeave = unpaidLeave,
           totalLeaves = totalLeaves,
           payableDays = payableDays,
           calculatedSalary = parseFloat_toFixed2 calculatedSalary \<rparr>)"

text \<open>
  \<^verbatim>\<open>calculateSummary\<close> sets the summary of the hook's state. The hook runs it in an effect
  after every change of the faculty list, the attendance, the holidays, the selected month,
  the working days or the permission limit, so that the summary a later call of
  \<^verbatim>\<open>finalizeAndDeductCLs\<close> sees is the one computed from the state that the earlier
  call left.
\<close>

definition calculateSummary :: "SummaryData \<Rightarrow> SummaryData" where
  "calculateSummary s =
     (if facultyList s = [] \<or> monthlyWorkingDays s \<le> 0 then s\<lparr>summaryData := []\<rparr>
      else
        let attendanceForMonth = filter (\<lambda>r. startsWith (att_date r) (selectedMonth s)) (rawAttendance s);
            byEmp = attendanceByEmp attendanceForMonth
        in s\<lparr>summaryData := map (summaryRow (actualWorkingDays s) (permissionLimit s) byEmp) (facultyList s)\<rparr>)"

section \<open>Record store\<close>

text \<open>
  The Firebase Realtime Database is used through \<^verbatim>\<open>get\<close>, \<^verbatim>\<open>set\<close> and \<^verbatim>\<open>update\<close>.
  The tree is modelled by its four collections. A JSON object is an association list
  from keys to children (\<^verbatim>\<open>Object.keys\<close> and \<^verbatim>\<open>for ... in\<close> run over its entries).
  A field that a node may lack is an \<open>option\<close>.
\<close>

record FacultyNode =
  node_name :: "string option"
  node_dept :: "string option"
  node_designation :: "string option"
  node_salary :: "rat option"
  node_casualLeaves :: "int option"

record AttendanceNode =
  an_inTime :: string
  an_status :: AttendanceStatus
  an_leaveApplicationId :: "string option"

datatype LeaveStatus = Pending | Approved | Rejected

record LeaveNode =
  ln_empId :: "int option"
  ln_startDate :: "date option"
  ln_endDate :: "date option"
  ln_submissionTimestamp :: "string option"
  ln_status :: "LeaveStatus option"

record AllocationNode =
  completed :: bool
  timestamp :: string
  updatedCount :: nat

record Database =
  faculty :: "(int \<times> FacultyNode) list"
  attendance :: "(int \<times> (date \<times> AttendanceNode) list) list"
  leaveApplicationNodes :: "string \<rightharpoonup> LeaveNode"
  monthlyAllocations :: "month \<rightharpoonup> AllocationNode"

text \<open>
  The paths the modelled operations write to:
  \<^verbatim>\<open>faculty/{empId}/casualLeaves\<close>, \<^verbatim>\<open>attendance/{empId}/records/{date}\<close>,
  \<^verbatim>\<open>leaveApplications/{id}/status\<close>, \<^verbatim>\<open>leaveApplications/{id}\<close> and
  \<^verbatim>\<open>monthlyAllocations/{month}\<close>; and the values written there.
\<close>

datatype path =
    FacultyCasualLeavesPath int
  | AttendanceRecordPath int date
  | LeaveStatusPath string
  | LeaveApplicationPath string
  | MonthlyAllocationPath month

datatype json = JNull | JNum int | JStatus LeaveStatus | JAllocation AllocationNode

text \<open>
  A store call is a multi-key \<^verbatim>\<open>update(ref(db), updates)\<close> or a \<^verbatim>\<open>set(ref(db, path), value)\<close>.
  An updates object is an association list: \<^verbatim>\<open>updates[key] = value\<close> is \<open>AList.update\<close>.
\<close>

datatype store_call = Update "(path \<times> json) list" | Set path json

definition emptyFacultyNode :: FacultyNode where
  "emptyFacultyNode =
     \<lparr> node_name = None, node_dept = None, node_designation = None,
       node_salary = None, node_casualLeaves = None \<rparr>"

definition emptyLeaveNode :: LeaveNode where
  "emptyLeaveNode =
     \<lparr> ln_empId = None, ln_startDate = None, ln_endDate = None,
       ln_submissionTimestamp = None, ln_status = None \<rparr>"

text \<open>
  Writing \<^verbatim>\<open>null\<close> to a record path deletes that record; an employee's attendance node
  that is left without records disappears, as the database keeps no empty nodes.
\<close>

definition removeAttendance ::
  "int \<Rightarrow> date \<Rightarrow> (int \<times> (date \<times> AttendanceNode) list) list \<Rightarrow> (int \<times> (date \<times> AttendanceNode) list) list" where
  "removeAttendance e d att =
     (case map_of att e of
        None \<Rightarrow> att
      | Some records \<Rightarrow>
          (let records' = AList.delete d records
           in if records' = [] then AList.delete e att else AList.update e records' att))"

text \<open>
  The effect of one written key. Writing a child of a node that does not exist creates the
  node with that child only. Only the combinations of path and value that the modelled
  operations issue are interpreted; any other leaves the tree as it is.
\<close>

fun writeKey :: "Database \<Rightarrow> path \<times> json \<Rightarrow> Database" where
  "writeKey db (FacultyCasualLeavesPath e, JNum n) =
     db\<lparr>faculty :=
          AList.update e
            ((case map_of (faculty db) e of None \<Rightarrow> emptyFacultyNode | Some node \<Rightarrow> node)
               \<lparr>node_casualLeaves := Some n\<rparr>)
            (faculty db)\<rparr>"
| "writeKey db (AttendanceRecordPath e d, JNull) =
     db\<lparr>attendance := removeAttendance e d (attendance db)\<rparr>"
| "writeKey db (LeaveStatusPath i, JStatus s) =
     db\<lparr>leaveApplicationNodes :=
          (leaveApplicationNodes db)
            (i \<mapsto> (case leaveApplicationNodes db i of None \<Rightarrow> emptyLeaveNode | Some node \<Rightarrow> node)
                    \<lparr>ln_status := Some s\<rparr>)\<rparr>"
| "writeKey db (LeaveApplicationPath i, JNull) =
     db\<lparr>leaveApplicationNodes := (leaveApplicationNodes db)(i := None)\<rparr>"
| "writeKey db (MonthlyAllocationPath m, JAllocation a) =
     db\<lparr>monthlyAllocations := (monthlyAllocations db)(m \<mapsto> a)\<rparr>"
| "writeKey db _ = db"

fun applyCall :: "Database \<Rightarrow> store_call \<Rightarrow> Database" where
  "applyCall db (Update updates) = foldl writeKey db updates"
| "applyCall db (Set p v) = writeKey db (p, v)"

text \<open>
  An operation returns the store calls it issued, in order, each with its outcome:
  \<open>True\<close> when the store accepted it, \<open>False\<close> when it threw. A call that threw changes
  nothing (a multi-key update is applied as a whole or not at all).
\<close>

definition run :: "Database \<Rightarrow> (store_call \<times> bool) list \<Rightarrow> Database" where
  "run db calls = foldl (\<lambda>db (c, ok). if ok then applyCall db c else db) db calls"

definition attendanceAt :: "Database \<Rightarrow> int \<Rightarrow> date \<Rightarrow> AttendanceNode option" where
  "attendanceAt db e d = (case map_of (attendance db) e of None \<Rightarrow> None | Some records \<Rightarrow> map_of records d)"

definition storedCasualLeaves :: "Database \<Rightarrow> int \<Rightarrow> int option" where
  "storedCasualLeaves db e = (case map_of (faculty db) e of None \<Rightarrow> None | Some node \<Rightarrow> node_casualLeaves node)"

definition storedLeaveStatus :: "Database \<Rightarrow> string \<Rightarrow> LeaveStatus option" where
  "storedLeaveStatus db i = (case leaveApplicationNodes db i of None \<Rightarrow> None | Some node \<Rightarrow> ln_status node)"

section \<open>Monthly allocation: \<^verbatim>\<open>MonthlyActions\<close>\<close>

datatype feedback_type = Success | Error

datatype alloc_error = NoFacultyData | StoreFailure

text \<open>
  The feedback messages of the component:
  \<^item> \<open>AlreadyCompleted\<close>: "This action has already been completed for the selected month."
  \<^item> \<open>CouldNotVerify\<close>: "Could not verify allocation status."
  \<^item> \<open>AllocationFailed e\<close>: "Allocation failed: ..." with the message of the error caught
  \<^item> \<open>NoneEligible\<close>: "Completed. No faculty were eligible. Month is now locked."
  \<^item> \<open>Allocated n\<close>: "Allocated 1 CL to n faculty members. Month is now locked."
\<close>

datatype message =
    AlreadyCompleted
  | CouldNotVerify
  | AllocationFailed alloc_error
  | NoneEligible
  | Allocated nat

record MonthlyActions =
  ma_selectedMonth :: month
  isLoading :: bool
  feedback :: "(feedback_type \<times> message) option"
  isCheckingStatus :: bool
  isAllocationComplete :: bool

text \<open>
  \<^verbatim>\<open>checkStatus\<close>, run by the effect whenever the selected month changes. \<open>read_ok\<close>
  tells whether the \<^verbatim>\<open>get\<close> succeeded.
\<close>

definition checkStatus :: "bool \<Rightarrow> Database \<Rightarrow> MonthlyActions \<Rightarrow> MonthlyActions" where
  "checkStatus read_ok db st =
     (let st1 = st\<lparr>isCheckingStatus := True, isAllocationComplete := False, feedback := None\<rparr>;
          st2 =
            (if read_ok then
               (case monthlyAllocations db (ma_selectedMonth st1) of
                  None \<Rightarrow> st1
                | Some a \<Rightarrow> if completed a then st1\<lparr>isAllocationComplete := True\<rparr> else st1)
             else st1\<lparr>feedback := Some (Error, CouldNotVerify)\<rparr>)
      in st2\<lparr>isCheckingStatus := False\<rparr>)"

definition setSelectedMonth :: "bool \<Rightarrow> Database \<Rightarrow> month \<Rightarrow> MonthlyActions \<Rightarrow> MonthlyActions" where
  "setSelectedMonth read_ok db m st = checkStatus read_ok db (st\<lparr>ma_selectedMonth := m\<rparr>)"

text \<open>\<^verbatim>\<open>Object.keys(facultyData).map(empId => ({empId: parseInt(empId), ...facultyData[empId]}))\<close>\<close>

definition toFacultyRecord :: "int \<times> FacultyNode \<Rightarrow> FacultyRecord" where
  "toFacultyRecord kv =
     (case kv of (empId, node) \<Rightarrow>
        \<lparr> fac_empId = empId,
          fac_name = node_name node,
          fac_dept = node_dept node,
          fac_designation = node_designation node,
          fac_salary = node_salary node,
          fac_casualLeaves = node_casualLeaves node \<rparr>)"

text \<open>
  The loop over \<^verbatim>\<open>attendanceData\<close>: an employee id is added when one of its records
  lies in the month and has status \<^verbatim>\<open>Absent\<close>.
\<close>

definition facultyWithAbsences :: "month \<Rightarrow> (int \<times> (date \<times> AttendanceNode) list) list \<Rightarrow> int list" where
  "facultyWithAbsences m attendanceData =
     map fst
       (filter (\<lambda>(empId, records). list_ex (\<lambda>(d, r). startsWith d m \<and> an_status r = Absent) records)
          attendanceData)"

text \<open>The \<^verbatim>\<open>facultyList.forEach\<close> that fills \<^verbatim>\<open>updates\<close> and counts \<^verbatim>\<open>updatedCount\<close>.\<close>

definition allocationUpdates :: "int list \<Rightarrow> FacultyRecord list \<Rightarrow> (path \<times> json) list \<times> nat" where
  "allocationUpdates withAbsences fl =
     foldl (\<lambda>(updates, n) f.
              if fac_empId f \<notin> set withAbsences
              then (AList.update (FacultyCasualLeavesPath (fac_empId f))
                      (JNum (or0 (fac_casualLeaves f) + 1)) updates, n + 1)
              else (updates, n))
       ([], 0) fl"

text \<open>
  The \<^verbatim>\<open>try\<close> block of \<^verbatim>\<open>handleAllocateCL\<close>. Its four store calls are the sites below;
  \<open>fault\<close> names the one that throws, if any. The result is the list of calls issued and
  either the error caught or \<^verbatim>\<open>updatedCount\<close>.
\<close>

datatype alloc_site = GetFaculty | GetAttendance | UpdateBalances | SetMarker

definition allocate ::
  "string \<Rightarrow> alloc_site option \<Rightarrow> Database \<Rightarrow> month \<Rightarrow> (store_call \<times> bool) list \<times> (alloc_error + nat)" where
  "allocate now fault db m =
     (if fault = Some GetFaculty then ([], Inl StoreFailure)
      else if faculty db = [] then ([], Inl NoFacultyData)
      else if fault = Some GetAttendance then ([], Inl StoreFailure)
      else
        let fl = map toFacultyRecord (faculty db);
            withAbsences = facultyWithAbsences m (attendance db);
            updates = fst (allocationUpdates withAbsences fl);
            n = snd (allocationUpdates withAbsences fl)
        in if n > 0 \<and> fault = Some UpdateBalances then ([(Update updates, False)], Inl StoreFailure)
           else
             let balanceCalls = (if n > 0 then [(Update updates, True)] else []);
                 marker = Set (MonthlyAllocationPath m)
                            (JAllocation \<lparr>completed = True, timestamp = now, updatedCount = n\<rparr>)
             in if fault = Some SetMarker then (balanceCalls @ [(marker, False)], Inl StoreFailure)
                else (balanceCalls @ [(marker, True)], Inr n))"

definition handleAllocateCL ::
  "string \<Rightarrow> alloc_site option \<Rightarrow> Database \<Rightarrow> MonthlyActions \<Rightarrow> MonthlyActions \<times> (store_call \<times> bool) list" where
  "handleAllocateCL now fault db st =
     (if isAllocationComplete st then (st\<lparr>feedback := Some (Error, AlreadyCompleted)\<rparr>, [])
      else
        let st1 = st\<lparr>isLoading := True, feedback := None\<rparr>;
            calls = fst (allocate now fault db (ma_selectedMonth st1));
            st2 = (case snd (allocate now fault db (ma_selectedMonth st1)) of
                     Inl e \<Rightarrow> st1\<lparr>feedback := Some (Error, AllocationFailed e)\<rparr>
                   | Inr n \<Rightarrow>
                       st1\<lparr>isAllocationComplete := True,
                            feedback := Some (Success, if n = 0 then NoneEligible else Allocated n)\<rparr>)
        in (st2\<lparr>isLoading := False\<rparr>, calls))"

text \<open>
  The attendance part of \<^verbatim>\<open>fetchData\<close> in \<^verbatim>\<open>useSummaryData\<close>: the tree flattened into
  one record per employee and date.
\<close>

definition flattenAttendance :: "(int \<times> (date \<times> AttendanceNode) list) list \<Rightarrow> AttendanceRecord list" where
  "flattenAttendance data =
     concat (map (\<lambda>(empId, records).
                    map (\<lambda>(d, r). \<lparr> att_empId = empId, att_date = d, att_inTime = an_inTime r,
                                    att_status = an_status r,
                                    att_leaveApplicationId = an_leaveApplicationId r \<rparr>) records)
               data)"

section \<open>Finalizing a month: \<^verbatim>\<open>finalizeAndDeductCLs\<close>\<close>

datatype finalize_error = NoSummaryData | FinalizeStoreFailure

text \<open>
  The two messages returned: "No CL deductions needed." and
  "CL deductions applied to n faculty members."
\<close>

datatype finalize_message = NoDeductionsNeeded | DeductionsApplied nat

definition deductionUpdates :: "MonthlySummary list \<Rightarrow> (path \<times> json) list \<times> nat" where
  "deductionUpdates items =
     foldl (\<lambda>(updates, n) item.
              if casualLeavesUsed item > 0
              then (AList.update (FacultyCasualLeavesPath (ms_empId item))
                      (JNum (casualLeavesAvailable item - casualLeavesUsed item)) updates, n + 1)
              else (updates, n))
       ([], 0) items"

text \<open>
  The in-memory list after a successful write: \<^verbatim>\<open>f.casualLeaves - summary.casualLeavesUsed\<close>
  for the first summary row of the employee, when that row used casual leaves. A missing
  balance stays a non-number.
\<close>

definition deductInMemory :: "MonthlySummary list \<Rightarrow> FacultyRecord \<Rightarrow> FacultyRecord" where
  "deductInMemory items f =
     (case find (\<lambda>s. ms_empId s = fac_empId f) items of
        None \<Rightarrow> f
      | Some summary \<Rightarrow>
          if casualLeavesUsed summary > 0
          then f\<lparr>fac_casualLeaves := map_option (\<lambda>c. c - casualLeavesUsed summary) (fac_casualLeaves f)\<rparr>
          else f)"

definition finalizeAndDeductCLs ::
  "bool \<Rightarrow> SummaryData \<Rightarrow> (finalize_error + finalize_message) \<times> SummaryData \<times> (store_call \<times> bool) list" where
  "finalizeAndDeductCLs write_ok s =
     (if summaryData s = [] then (Inl NoSummaryData, s, [])
      else
        let updates = fst (deductionUpdates (summaryData s));
            deductions = snd (deductionUpdates (summaryData s))
        in if deductions = 0 then (Inr NoDeductionsNeeded, s, [])
           else if \<not> write_ok then (Inl FinalizeStoreFailure, s, [(Update updates, False)])
           else (Inr (DeductionsApplied deductions),
                 s\<lparr>facultyList := map (deductInMemory (summaryData s)) (facultyList s)\<rparr>,
                 [(Update updates, True)]))"

section \<open>Leave workflow\<close>

record LeaveApplicationRecord =
  leave_id :: string
  leave_empId :: int
  leave_startDate :: date
  leave_endDate :: date
  leave_submissionTimestamp :: string
  leave_status :: LeaveStatus

datatype leave_error = FailedToApprove | FailedToReject | FailedToDelete

subsection \<open>\<^verbatim>\<open>approveLeave\<close>\<close>

text \<open>
  The hook's state is the list \<^verbatim>\<open>leaveApplications\<close>. The result is the error thrown or
  a normal return, the list afterwards, and the store calls issued.
\<close>

definition approveLeave ::
  "bool \<Rightarrow> string \<Rightarrow> LeaveApplicationRecord list \<Rightarrow>
   (leave_error + unit) \<times> LeaveApplicationRecord list \<times> (store_call \<times> bool) list" where
  "approveLeave write_ok leaveId leaveApplications =
     (let originalApplications = leaveApplications;
          optimistic = map (\<lambda>app. if leave_id app = leaveId then app\<lparr>leave_status := Approved\<rparr> else app)
                         leaveApplications;
          call = Update [(LeaveStatusPath leaveId, JStatus Approved)]
      in if write_ok then (Inr (), optimistic, [(call, True)])
         else (Inl FailedToApprove, originalApplications, [(call, False)]))"

subsection \<open>\<^verbatim>\<open>rejectLeave\<close>\<close>

text \<open>
  A \<^verbatim>\<open>Date\<close> at UTC midnight is represented by its UTC calendar date.
  \<^verbatim>\<open>Date.UTC(year, monthIndex, day)\<close> maps a year from 0 to 99 to 1900 + year;
  \<^verbatim>\<open>setUTCDate(getUTCDate() + 1)\<close> moves to the following day of the calendar, into the next
  month or year after the last day; \<^verbatim>\<open><=\<close> compares the time values, which is the order of
  the calendar; \<^verbatim>\<open>toISOString().split("T")[0]\<close> prints the UTC date. The representation
  is that of JavaScript for the dates of the calendar (\<open>calendarDate\<close>), which is what
  a date string holds; its agreement with the time values is proved with the leave
  workflow.
\<close>

definition isLeapYear :: "int \<Rightarrow> bool" where
  "isLeapYear y = (y mod 4 = 0 \<and> (y mod 100 \<noteq> 0 \<or> y mod 400 = 0))"

definition daysInMonth :: "int \<Rightarrow> int \<Rightarrow> int" where
  "daysInMonth y m =
     (if m = 2 then (if isLeapYear y then 29 else 28)
      else if m = 4 \<or> m = 6 \<or> m = 9 \<or> m = 11 then 30
      else 31)"

definition calendarDate :: "date \<Rightarrow> bool" where
  "calendarDate dt =
     (case dt of (y, m, d) \<Rightarrow>
        100 \<le> y \<and> y \<le> 9999 \<and> 1 \<le> m \<and> m \<le> 12 \<and> 1 \<le> d \<and> d \<le> daysInMonth y m)"

definition Date_UTC :: "int \<Rightarrow> int \<Rightarrow> int \<Rightarrow> date" where
  "Date_UTC year monthIndex day =
     ((if 0 \<le> year \<and> year \<le> 99 then 1900 + year else year), monthIndex + 1, day)"

definition dateLe :: "date \<Rightarrow> date \<Rightarrow> bool" where
  "dateLe a b =
     (case a of (y1, m1, d1) \<Rightarrow> case b of (y2, m2, d2) \<Rightarrow>
        y1 < y2 \<or> (y1 = y2 \<and> (m1 < m2 \<or> (m1 = m2 \<and> d1 \<le> d2))))"

definition setUTCDateNext :: "date \<Rightarrow> date" where
  "setUTCDateNext dt =
     (case dt of (y, m, d) \<Rightarrow>
        if d < daysInMonth y m then (y, m, d + 1)
        else if m < 12 then (y, m + 1, 1)
        else (y + 1, 1, 1))"

function rejectLoop :: "int \<Rightarrow> date \<Rightarrow> date \<Rightarrow> (path \<times> json) list \<Rightarrow> (path \<times> json) list" where
  "rejectLoop empId current lastDate updates =
     (if dateLe current lastDate
      then rejectLoop empId (setUTCDateNext current) lastDate
             (AList.update (AttendanceRecordPath empId current) JNull updates)
      else updates)"
  by pat_completeness auto

termination rejectLoop
proof (relation "measures [\<lambda>(e, c, l, u). nat (fst l - fst c + 1),
                           \<lambda>(e, c, l, u). nat (12 - fst (snd c)),
                           \<lambda>(e, c, l, u). nat (daysInMonth (fst c) (fst (snd c)) - snd (snd c))]")
  show "wf (measures [\<lambda>(e, c, l, u). nat (fst l - fst c + 1),
                      \<lambda>(e, c, l, u). nat (12 - fst (snd c)),
                      \<lambda>(e, c, l, u). nat (daysInMonth (fst c) (fst (snd c)) - snd (snd c))])"
    by simp
next
  fix empId :: int and current lastDate :: date and updates :: "(path \<times> json) list"
  assume le: "dateLe current lastDate"
  obtain y m d where c: "current = (y, m, d)" by (cases current) auto
  obtain ly lm ld where l: "lastDate = (ly, lm, ld)" by (cases lastDate) auto
  from le have "y \<le> ly" by (auto simp: dateLe_def c l)
  then show "((empId, setUTCDateNext current, lastDate,
               AList.update (AttendanceRecordPath empId current) JNull updates),
              (empId, current, lastDate, updates))
        \<in> measures [\<lambda>(e, c, l, u). nat (fst l - fst c + 1),
                     \<lambda>(e, c, l, u). nat (12 - fst (snd c)),
                     \<lambda>(e, c, l, u). nat (daysInMonth (fst c) (fst (snd c)) - snd (snd c))]"
    by (auto simp: c l setUTCDateNext_def)
qed

declare rejectLoop.simps [simp del]

text \<open>
  \<^verbatim>\<open>startDate.split("-").map(Number)\<close> yields the three numeric fields of the date; the
  month index passed to \<^verbatim>\<open>Date.UTC\<close> is the month minus one.
\<close>

definition rejectLeave ::
  "bool \<Rightarrow> string \<Rightarrow> LeaveApplicationRecord list \<Rightarrow>
   (leave_error + unit) \<times> LeaveApplicationRecord list \<times> (store_call \<times> bool) list" where
  "rejectLeave write_ok leaveId leaveApplications =
     (let originalApplications = leaveApplications;
          optimistic = map (\<lambda>app. if leave_id app = leaveId then app\<lparr>leave_status := Rejected\<rparr> else app)
                         leaveApplications
      in case find (\<lambda>app. leave_id app = leaveId) originalApplications of
           None \<Rightarrow> (Inl FailedToReject, originalApplications, [])
         | Some leaveApp \<Rightarrow>
             (let updates0 = AList.update (LeaveStatusPath leaveId) (JStatus Rejected) [];
                  current = (case leave_startDate leaveApp of (y, m, d) \<Rightarrow> Date_UTC y (m - 1) d);
                  lastDate = (case leave_endDate leaveApp of (y, m, d) \<Rightarrow> Date_UTC y (m - 1) d);
                  updates = rejectLoop (leave_empId leaveApp) current lastDate updates0
              in if write_ok then (Inr (), optimistic, [(Update updates, True)])
                 else (Inl FailedToReject, originalApplications, [(Update updates, False)])))"

subsection \<open>\<^verbatim>\<open>deleteLeave\<close> of \<^verbatim>\<open>useFacultyDetailData\<close>\<close>

text \<open>
  Here the loop steps with \<^verbatim>\<open>setDate(getDate() + 1)\<close>, in the local time of the host, so a
  \<^verbatim>\<open>Date\<close> need not stay at UTC midnight: it is its UTC calendar date and the milliseconds
  elapsed in that day. \<^verbatim>\<open>new Date("YYYY-MM-DD")\<close> is UTC midnight of that date. The local
  step depends on the time zone of the host and is a parameter; with an arbitrary step the
  loop need not end, so its result is an \<open>option\<close>.
\<close>

type_synonym jstime = "date \<times> int"

definition timeLe :: "jstime \<Rightarrow> jstime \<Rightarrow> bool" where
  "timeLe a b = (fst a \<noteq> fst b \<and> dateLe (fst a) (fst b) \<or> fst a = fst b \<and> snd a \<le> snd b)"

partial_function (option) deleteLoop ::
  "(jstime \<Rightarrow> jstime) \<Rightarrow> int \<Rightarrow> jstime \<Rightarrow> jstime \<Rightarrow> (path \<times> json) list \<Rightarrow> (path \<times> json) list option" where
  "deleteLoop setDateNext empId current endDate updates =
     (if timeLe current endDate
      then deleteLoop setDateNext empId (setDateNext current) endDate
             (AList.update (AttendanceRecordPath empId (fst current)) JNull updates)
      else Some updates)"

text \<open>
  \<^verbatim>\<open>deleteLeave\<close> returns at once when the hook's \<^verbatim>\<open>empId\<close> is 0. The reload by
  \<^verbatim>\<open>fetchData\<close> after the write only reads, and catches its own errors.
\<close>

definition deleteLeave ::
  "bool \<Rightarrow> (jstime \<Rightarrow> jstime) \<Rightarrow> int \<Rightarrow> LeaveApplicationRecord \<Rightarrow>
   ((leave_error + unit) \<times> (store_call \<times> bool) list) option" where
  "deleteLeave write_ok setDateNext empId leave =
     (if empId = 0 then Some (Inr (), [])
      else
        case deleteLoop setDateNext empId (leave_startDate leave, 0) (leave_endDate leave, 0)
               (AList.update (LeaveApplicationPath (leave_id leave)) JNull []) of
          None \<Rightarrow> None
        | Some updates \<Rightarrow>
            Some (if write_ok then (Inr (), [(Update updates, True)])
                  else (Inl FailedToDelete, [(Update updates, False)])))"

section \<open>Notions of the specification and example states\<close>

text \<open>
  The records of an employee that lie in the selected month (step 4 of the payroll
  algorithm), and the records that \<^verbatim>\<open>attendanceByEmp.get(empId) || []\<close> yields.
\<close>

definition recordsInMonth :: "SummaryData \<Rightarrow> int \<Rightarrow> AttendanceRecord list" where
  "recordsInMonth s e =
     filter (\<lambda>r. startsWith (att_date r) (selectedMonth s) \<and> att_empId r = e) (rawAttendance s)"

definition rowRecords :: "(int \<rightharpoonup> AttendanceRecord list) \<Rightarrow> FacultyRecord \<Rightarrow> AttendanceRecord list" where
  "rowRecords byEmp f = (case byEmp (fac_empId f) of None \<Rightarrow> [] | Some rs \<Rightarrow> rs)"


text \<open>
  The worked scenarios of the specification: 20 working days, 15 days present and 2 casual
  leaves at a salary of 3000; and 5 late days with a permission limit of 2. A month with
  19.5 payable days of 20 at a salary of 3001. A month whose only working day is a holiday.
\<close>

definition recordOn :: "int \<Rightarrow> AttendanceStatus \<Rightarrow> int \<Rightarrow> AttendanceRecord" where
  "recordOn e st d =
     \<lparr> att_empId = e, att_date = (2024, 1, d), att_inTime = ''08:00:00'', att_status = st,
       att_leaveApplicationId = None \<rparr>"

definition scenarioFaculty :: "int option \<Rightarrow> FacultyRecord" where
  "scenarioFaculty cl =
     \<lparr> fac_empId = 1, fac_name = Some ''A'', fac_dept = Some ''CSE'', fac_designation = Some ''AP'',
       fac_salary = Some 3000, fac_casualLeaves = cl \<rparr>"

definition scenario1 :: SummaryData where
  "scenario1 =
     \<lparr> facultyList = [scenarioFaculty (Some 2)],
       rawAttendance = map (recordOn 1 OnTime) [1, 2, 3, 4, 5, 6, 7, 8, 9, 10, 11, 12, 13, 14, 15],
       holidays = [], selectedMonth = (2024, 1), monthlyWorkingDays = 20, permissionLimit = 2,
       summaryData = [] \<rparr>"



definition holidayState :: SummaryData where
  "holidayState =
     \<lparr> facultyList = [scenarioFaculty (Some 2)],
       rawAttendance = [],
       holidays = [\<lparr> hol_id = (2024, 1, 26), hol_date = (2024, 1, 26), hol_description = ''Republic Day'' \<rparr>],
       selectedMonth = (2024, 1), monthlyWorkingDays = 1, permissionLimit = 2,
       summaryData = [] \<rparr>"

text \<open>
  An employee has an Absent record in the month; an employee has any record in the month.
\<close>

definition hasAbsentRecord :: "(int \<times> (date \<times> AttendanceNode) list) list \<Rightarrow> month \<Rightarrow> int \<Rightarrow> bool" where
  "hasAbsentRecord att m e =
     list_ex (\<lambda>(e', records). e' = e \<and> list_ex (\<lambda>(d, r). startsWith d m \<and> an_status r = Absent) records) att"

definition hasRecordIn :: "(int \<times> (date \<times> AttendanceNode) list) list \<Rightarrow> month \<Rightarrow> int \<Rightarrow> bool" where
  "hasRecordIn att m e =
     list_ex (\<lambda>(e', records). e' = e \<and> list_ex (\<lambda>(d, r). startsWith d m) records) att"

text \<open>
  The updates object and the count that \<^verbatim>\<open>handleAllocateCL\<close> computes from the two
  snapshots, and the kind of write it holds.
\<close>

definition allocationOf :: "Database \<Rightarrow> month \<Rightarrow> (path \<times> json) list \<times> nat" where
  "allocationOf db m =
     allocationUpdates (facultyWithAbsences m (attendance db)) (map toFacultyRecord (faculty db))"

definition casualLeaveWrite :: "path \<times> json \<Rightarrow> bool" where
  "casualLeaveWrite w = (case w of (FacultyCasualLeavesPath e, JNum n) \<Rightarrow> True | _ \<Rightarrow> False)"

text \<open>
  A database with three employees: 1 has an Absent day in January 2024, 2 was there on time,
  3 has no record at all. Variants with one employee who was absent, and with January
  locked. The component with January selected, and the summary hook loaded from the
  database.
\<close>

definition exampleNode :: "int option \<Rightarrow> FacultyNode" where
  "exampleNode cl =
     \<lparr> node_name = Some ''A'', node_dept = Some ''CSE'', node_designation = Some ''AP'',
       node_salary = Some 3000, node_casualLeaves = cl \<rparr>"

definition attNode :: "AttendanceStatus \<Rightarrow> AttendanceNode" where
  "attNode st = \<lparr> an_inTime = ''08:00:00'', an_status = st, an_leaveApplicationId = None \<rparr>"

definition exampleDb :: Database where
  "exampleDb =
     \<lparr> faculty = [(1, exampleNode (Some 2)), (2, exampleNode (Some 0)), (3, exampleNode None)],
       attendance = [(1, [((2024, 1, 5), attNode Absent)]), (2, [((2024, 1, 5), attNode OnTime)])],
       leaveApplicationNodes = Map.empty,
       monthlyAllocations = Map.empty \<rparr>"

definition allAbsentDb :: Database where
  "allAbsentDb = exampleDb\<lparr>faculty := [(1, exampleNode (Some 2))]\<rparr>"

definition lockedMarker :: AllocationNode where
  "lockedMarker = \<lparr>completed = True, timestamp = ''2024-02-01T09:00:00.000Z'', updatedCount = 2\<rparr>"

definition lockedDb :: Database where
  "lockedDb = exampleDb\<lparr>monthlyAllocations := [(2024, 1) \<mapsto> lockedMarker]\<rparr>"

definition exampleActions :: MonthlyActions where
  "exampleActions =
     \<lparr> ma_selectedMonth = (2024, 1), isLoading = False, feedback = None,
       isCheckingStatus = False, isAllocationComplete = False \<rparr>"

definition exampleNow :: string where
  "exampleNow = ''2024-02-01T09:00:00.000Z''"

definition exampleSummary :: SummaryData where
  "exampleSummary =
     \<lparr> facultyList = map toFacultyRecord (faculty exampleDb),
       rawAttendance = flattenAttendance (attendance exampleDb),
       holidays = [], selectedMonth = (2024, 1), monthlyWorkingDays = 31, permissionLimit = 2,
       summaryData = [] \<rparr>"

text \<open>
  A date of the calendar without the bound on the year, and the dates of a leave's range.
\<close>

definition validDay :: "date \<Rightarrow> bool" where
  "validDay dt = (case dt of (y, m, d) \<Rightarrow> 1 \<le> m \<and> m \<le> 12 \<and> 1 \<le> d \<and> d \<le> daysInMonth y m)"

definition inRange :: "LeaveApplicationRecord \<Rightarrow> date \<Rightarrow> bool" where
  "inRange leave d =
     (calendarDate d \<and> dateLe (leave_startDate leave) d \<and> dateLe d (leave_endDate leave))"

definition markRejected :: "string \<Rightarrow> LeaveApplicationRecord list \<Rightarrow> LeaveApplicationRecord list" where
  "markRejected leaveId apps =
     map (\<lambda>app. if leave_id app = leaveId then app\<lparr>leave_status := Rejected\<rparr> else app) apps"

definition markApproved :: "string \<Rightarrow> LeaveApplicationRecord list \<Rightarrow> LeaveApplicationRecord list" where
  "markApproved leaveId apps =
     map (\<lambda>app. if leave_id app = leaveId then app\<lparr>leave_status := Approved\<rparr> else app) apps"

text \<open>The two kinds of write in the updates of \<^verbatim>\<open>rejectLeave\<close>.\<close>

definition rejectWrite :: "path \<times> json \<Rightarrow> bool" where
  "rejectWrite w =
     (case w of
        (LeaveStatusPath i, JStatus s) \<Rightarrow> True
      | (AttendanceRecordPath e d, JNull) \<Rightarrow> True
      | _ \<Rightarrow> False)"

text \<open>
  The time value of a \<^verbatim>\<open>Date\<close> at UTC midnight is 86400000 times its day number.
  Day numbers as ECMAScript defines them: \<^verbatim>\<open>DayFromYear\<close>, the days of the year before a
  month, and \<^verbatim>\<open>MakeDay\<close> for the fields of a calendar date. They serve to check the
  representation of a \<^verbatim>\<open>Date\<close> by its calendar date against the time values.
\<close>

definition DayFromYear :: "int \<Rightarrow> int" where
  "DayFromYear y = 365 * (y - 1970) + (y - 1969) div 4 - (y - 1901) div 100 + (y - 1601) div 400"

definition daysBeforeMonth :: "int \<Rightarrow> int \<Rightarrow> int" where
  "daysBeforeMonth y m =
     (if m = 1 then 0 else if m = 2 then 31
      else (if isLeapYear y then 1 else 0) +
        (if m = 3 then 59 else if m = 4 then 90 else if m = 5 then 120 else if m = 6 then 151
         else if m = 7 then 181 else if m = 8 then 212 else if m = 9 then 243
         else if m = 10 then 273 else if m = 11 then 304 else 334))"

definition MakeDay :: "date \<Rightarrow> int" where
  "MakeDay dt = (case dt of (y, m, d) \<Rightarrow> DayFromYear y + daysBeforeMonth y m + d - 1)"

text \<open>
  A leave from 27 February to 2 March 2024 of employee 7, the same leave with its dates
  exchanged, and a database holding the leave and four attendance records of the employee.
  The step of \<^verbatim>\<open>deleteLeave\<close> on a host whose local time is UTC.
\<close>

definition exampleLeave :: LeaveApplicationRecord where
  "exampleLeave =
     \<lparr> leave_id = ''L1'', leave_empId = 7, leave_startDate = (2024, 2, 27),
       leave_endDate = (2024, 3, 2), leave_submissionTimestamp = ''2024-02-20T10:00:00.000Z'',
       leave_status = Pending \<rparr>"

definition invertedLeave :: LeaveApplicationRecord where
  "invertedLeave = exampleLeave\<lparr>leave_startDate := (2024, 3, 2), leave_endDate := (2024, 2, 27)\<rparr>"

definition leaveDb :: Database where
  "leaveDb =
     \<lparr> faculty = [(7, exampleNode (Some 1))],
       attendance = [(7, [((2024, 2, 26), attNode OnTime), ((2024, 2, 29), attNode Absent),
                          ((2024, 3, 1), attNode Absent), ((2024, 3, 4), attNode OnTime)])],
       leaveApplicationNodes =
         [''L1'' \<mapsto> \<lparr> ln_empId = Some 7, ln_startDate = Some (2024, 2, 27),
                      ln_endDate = Some (2024, 3, 2),
                      ln_submissionTimestamp = Some ''2024-02-20T10:00:00.000Z'',
                      ln_status = Some Pending \<rparr>],
       monthlyAllocations = Map.empty \<rparr>"

definition utcHostStep :: "jstime \<Rightarrow> jstime" where
  "utcHostStep t = (setUTCDateNext (fst t), snd t)"

text \<open>
  The month of the first scenario once its summary is computed, the row that summary holds,
  a database with the employee's balance of 2, and the state and the store after a first
  call of \<^verbatim>\<open>finalizeAndDeductCLs\<close>. A month with 17 days present of 20 and a balance
  of 10, and its database.
\<close>

definition monthEnd :: SummaryData where
  "monthEnd = calculateSummary scenario1"

definition payrollDb :: Database where
  "payrollDb =
     \<lparr> faculty = [(1, exampleNode (Some 2))], attendance = [],
       leaveApplicationNodes = Map.empty, monthlyAllocations = Map.empty \<rparr>"

definition scenarioRow :: MonthlySummary where
  "scenarioRow =
     \<lparr> ms_empId = 1, ms_name = Some ''A'', ms_dept = Some ''CSE'', ms_designation = Some ''AP'',
       ms_monthlySalary = Some 3000, presentDays = 15, permissions = 0, halfDayLeaves = 0,
       casualLeavesAvailable = 2, casualLeavesUsed = 2, unpaidLeave = 3, totalLeaves = 3,
       payableDays = 17, calculatedSalary = Some 2550 \<rparr>"

definition afterFirst :: SummaryData where
  "afterFirst = fst (snd (finalizeAndDeductCLs True monthEnd))"

definition storeAfterFirst :: Database where
  "storeAfterFirst = run payrollDb (snd (snd (finalizeAndDeductCLs True monthEnd)))"

definition ampleMonth :: SummaryData where
  "ampleMonth =
     scenario1\<lparr>facultyList := [scenarioFaculty (Some 10)],
               rawAttendance := map (recordOn 1 OnTime) [1, 2, 3, 4, 5, 6, 7, 8, 9, 10, 11, 12, 13, 14, 15, 16, 17]\<rparr>"

definition ampleDb :: Database where
  "ampleDb = payrollDb\<lparr>faculty := [(1, exampleNode (Some 10))]\<rparr>"

section \<open>The payroll calculator\<close>

subsection \<open>The records of an employee\<close>

lemma attendanceByEmp_foldl:
  "foldl (\<lambda>m rec. m(att_empId rec \<mapsto> (case m (att_empId rec) of None \<Rightarrow> [] | Some rs \<Rightarrow> rs) @ [rec])) m0 recs e
   = (if filter (\<lambda>r. att_empId r = e) recs = [] then m0 e
      else Some ((case m0 e of None \<Rightarrow> [] | Some rs \<Rightarrow> rs) @ filter (\<lambda>r. att_empId r = e) recs))"
  by (induction recs arbitrary: m0) (auto split: option.splits)

lemma attendanceByEmp_get:
  "(case attendanceByEmp recs e of None \<Rightarrow> [] | Some rs \<Rightarrow> rs) = filter (\<lambda>r. att_empId r = e) recs"
  unfolding attendanceByEmp_def by (simp add: attendanceByEmp_foldl)

subsection \<open>Doubles\<close>

lemma powi_bitlen:
  fixes b :: int
  assumes "0 < b"
  shows "(2::rat) powi (bitlen b - 1) \<le> of_int b" and "of_int (b + 1) \<le> (2::rat) powi (bitlen b)"
proof -
  from bitlen_bounds [OF assms] have lo: "2 ^ nat (bitlen b - 1) \<le> b" and hi: "b + 1 \<le> 2 ^ nat (bitlen b)"
    by simp_all
  have ge1: "1 \<le> bitlen b" using assms by (auto simp: bitlen_alt_def)
  have "(2::rat) powi (bitlen b - 1) = of_int (2 ^ nat (bitlen b - 1))"
    using ge1 by (simp add: power_int_def)
  also have "\<dots> \<le> of_int b" using lo by (simp only: of_int_le_iff)
  finally show "(2::rat) powi (bitlen b - 1) \<le> of_int b" .
  have "(of_int (b + 1) :: rat) \<le> of_int (2 ^ nat (bitlen b))" using hi by (simp only: of_int_le_iff)
  also have "\<dots> = 2 powi (bitlen b)" using ge1 by (simp add: power_int_def)
  finally show "of_int (b + 1) \<le> (2::rat) powi (bitlen b)" .
qed

text \<open>\<open>exponentOf x\<close> is the exponent of the binade of \<open>x\<close>, and the only one.\<close>

lemma exponentOf_bounds:
  assumes "x \<noteq> 0"
  shows "2 powi (exponentOf x) \<le> \<bar>x\<bar>" and "\<bar>x\<bar> < 2 powi (exponentOf x + 1)"
proof -
  define a where "a = \<bar>x\<bar>"
  have a: "0 < a" using assms by (simp add: a_def)
  have "2 powi (exponentOf x) \<le> a \<and> a < 2 powi (exponentOf x + 1)"
  proof (cases "1 \<le> a")
    case True
    define b where "b = \<lfloor>a\<rfloor>"
    have b: "0 < b" using True by (simp add: b_def)
    have e: "exponentOf x = bitlen b - 1" using True by (simp add: exponentOf_def a_def b_def)
    have "of_int b \<le> a" by (simp add: b_def)
    with powi_bitlen(1) [OF b] have lo: "2 powi (bitlen b - 1) \<le> a" by simp
    have "a < of_int (b + 1)" unfolding b_def by linarith
    with powi_bitlen(2) [OF b] have hi: "a < 2 powi (bitlen b)" by simp
    show ?thesis using lo hi by (simp add: e)
  next
    case False
    then have lt: "a < 1" by simp
    define y where "y = 1 / a"
    have y: "1 < y" using a lt by (simp add: y_def)
    define c where "c = \<lceil>y\<rceil> - 1"
    have c: "0 < c" using y unfolding c_def by linarith
    have e: "exponentOf x = - bitlen c" using False by (simp add: exponentOf_def a_def c_def y_def)
    have cy: "of_int c < y" "y \<le> of_int (c + 1)" unfolding c_def by linarith+
    from powi_bitlen(1) [OF c] cy(1) have ylo: "2 powi (bitlen c - 1) < y" by simp
    from powi_bitlen(2) [OF c] cy(2) have yhi: "y \<le> 2 powi (bitlen c)" by simp
    have p1: "(0::rat) < 2 powi (bitlen c)" and p2: "(0::rat) < 2 powi (bitlen c - 1)"
      by (simp_all add: zero_less_power_int)
    have ay: "a = 1 / y" using a by (simp add: y_def)
    have lo: "2 powi (- bitlen c) \<le> a"
    proof -
      have "1 / (2 powi (bitlen c)) \<le> 1 / y"
        using yhi y by (intro divide_left_mono) (simp_all add: p1)
      then show ?thesis unfolding ay by (simp add: power_int_minus_divide)
    qed
    have hi: "a < 2 powi (- bitlen c + 1)"
    proof -
      have "1 / y < 1 / (2 powi (bitlen c - 1))"
        using ylo y p2 by (intro divide_strict_left_mono) simp_all
      also have "\<dots> = 2 powi (- (bitlen c - 1))" by (rule power_int_minus_divide [symmetric])
      also have "- (bitlen c - 1) = - bitlen c + 1" by simp
      finally show ?thesis unfolding ay .
    qed
    show ?thesis using lo hi by (simp add: e)
  qed
  then show "2 powi (exponentOf x) \<le> \<bar>x\<bar>" and "\<bar>x\<bar> < 2 powi (exponentOf x + 1)"
    by (simp_all add: a_def)
qed

lemma exponentOf_eqI:
  assumes "2 powi e \<le> \<bar>x\<bar>" and "\<bar>x\<bar> < 2 powi (e + 1)"
  shows "exponentOf x = e"
proof -
  have "(0::rat) < 2 powi e" by (simp add: zero_less_power_int)
  with assms(1) have "0 < \<bar>x\<bar>" by linarith
  then have x: "x \<noteq> 0" by simp
  note B = exponentOf_bounds [OF x]
  have "\<not> exponentOf x < e"
  proof
    assume "exponentOf x < e"
    then have "exponentOf x + 1 \<le> e" by simp
    then have "(2::rat) powi (exponentOf x + 1) \<le> 2 powi e" by (intro power_int_increasing) simp_all
    with B(2) assms(1) show False by simp
  qed
  moreover have "\<not> e < exponentOf x"
  proof
    assume "e < exponentOf x"
    then have "e + 1 \<le> exponentOf x" by simp
    then have "(2::rat) powi (e + 1) \<le> 2 powi (exponentOf x)" by (intro power_int_increasing) simp_all
    with B(1) assms(2) show False by simp
  qed
  ultimately show ?thesis by simp
qed

lemma roundTiesToEven_eqI:
  assumes "\<bar>x - of_int n\<bar> < 1 / 2"
  shows "roundTiesToEven x = n"
proof -
  from assms have b: "x - of_int n < 1 / 2" "- (1 / 2) < x - of_int n"
    by linarith+
  show ?thesis
  proof (cases "of_int n \<le> x")
    case True
    have f: "\<lfloor>x\<rfloor> = n"
      unfolding floor_eq_iff using True b by linarith
    show ?thesis using b by (simp add: roundTiesToEven_def f Let_def)
  next
    case False
    have f: "\<lfloor>x\<rfloor> = n - 1"
      unfolding floor_eq_iff using False b by simp
    have "1 / 2 < x - of_int (n - 1)" using b by simp
    then show ?thesis by (simp add: roundTiesToEven_def f Let_def)
  qed
qed

lemma roundTiesToEven_tie:
  "roundTiesToEven (of_int n + 1 / 2) = (if even n then n else n + 1)"
proof -
  have f: "\<lfloor>rat_of_int n + 1 / 2\<rfloor> = n" unfolding floor_eq_iff by simp
  show ?thesis by (simp add: roundTiesToEven_def f Let_def)
qed

text \<open>
  The double nearest to \<open>x\<close>, from its binade and the multiple of the spacing that
  \<open>x\<close> is rounded to.
\<close>

lemma toDouble_eq:
  assumes "2 powi e \<le> \<bar>x\<bar>" and "\<bar>x\<bar> < 2 powi (e + 1)"
    and "roundTiesToEven (x / 2 powi (max e (- 1022) - 52)) = n"
  shows "toDouble x =
           (if (2::rat) ^ 1024 \<le> \<bar>of_int n * 2 powi (max e (- 1022) - 52)\<bar> then None
            else Some (of_int n * 2 powi (max e (- 1022) - 52)))"
proof -
  have "(0::rat) < 2 powi e" by (simp add: zero_less_power_int)
  with assms(1) have "0 < \<bar>x\<bar>" by linarith
  then have x: "x \<noteq> 0" by simp
  show ?thesis
    unfolding toDouble_def Let_def exponentOf_eqI [OF assms(1,2)] assms(3) using x by simp
qed

lemma toDouble_eqI:
  assumes "2 powi e \<le> \<bar>x\<bar>" and "\<bar>x\<bar> < 2 powi (e + 1)" and "- 1022 \<le> e"
    and "\<bar>x / 2 powi (e - 52) - of_int n\<bar> < 1 / 2"
    and "\<bar>of_int n * 2 powi (e - 52)\<bar> < (2::rat) ^ 1024"
  shows "toDouble x = Some (of_int n * 2 powi (e - 52))"
proof -
  have e: "max e (- 1022) = e" using assms(3) by simp
  have r: "roundTiesToEven (x / 2 powi (max e (- 1022) - 52)) = n"
    unfolding e by (rule roundTiesToEven_eqI [OF assms(4)])
  show ?thesis
    unfolding toDouble_eq [OF assms(1,2) r] e using assms(5) by simp
qed

lemma toDouble_zero: "toDouble 0 = Some 0"
  by (simp add: toDouble_def)

lemma roundTiesToEven_of_int: "roundTiesToEven (of_int k) = k"
  by (rule roundTiesToEven_eqI) simp

lemma roundTiesToEven_cases: "roundTiesToEven z = \<lfloor>z\<rfloor> \<or> roundTiesToEven z = \<lfloor>z\<rfloor> + 1"
  by (simp add: roundTiesToEven_def Let_def)

lemma roundTiesToEven_ge: "of_int k \<le> z \<Longrightarrow> k \<le> roundTiesToEven z"
proof -
  assume "of_int k \<le> z"
  then have "k \<le> \<lfloor>z\<rfloor>" by (simp add: le_floor_iff)
  with roundTiesToEven_cases [of z] show ?thesis by auto
qed

lemma roundTiesToEven_le: "z \<le> of_int k \<Longrightarrow> roundTiesToEven z \<le> k"
proof (cases "z = of_int k")
  case True
  then show ?thesis by (simp add: roundTiesToEven_of_int)
next
  case False
  assume "z \<le> of_int k"
  with False have "z < of_int k" by simp
  then have "\<lfloor>z\<rfloor> < k" by (simp add: floor_less_iff)
  with roundTiesToEven_cases [of z] show ?thesis by auto
qed

lemma exponentOf_le:
  assumes "y \<noteq> 0" and "\<bar>y\<bar> < 2 powi (e + 1)"
  shows "exponentOf y \<le> e"
proof (rule ccontr)
  assume "\<not> exponentOf y \<le> e"
  then have "e + 1 \<le> exponentOf y" by simp
  then have "(2::rat) powi (e + 1) \<le> 2 powi (exponentOf y)" by (intro power_int_increasing) simp_all
  with exponentOf_bounds(1) [OF assms(1)] assms(2) show False by simp
qed

text \<open>
  A number that \<open>toDouble\<close> yields is a double: \<open>toDouble\<close> leaves it as it is. So a
  salary that the record holds as a double is read unchanged, and every quotient, product
  and salary computed is a double.
\<close>

lemma toDouble_idem:
  assumes "toDouble x = Some y"
  shows "toDouble y = Some y"
proof (cases "y = 0")
  case True
  then show ?thesis by (simp add: toDouble_def)
next
  case y: False
  have x: "x \<noteq> 0" using assms y by (auto simp: toDouble_def)
  define e where "e = max (exponentOf x) (- 1022)"
  define u :: rat where "u = 2 powi (e - 52)"
  define n where "n = roundTiesToEven (x / u)"
  have u: "0 < u" by (simp add: u_def zero_less_power_int)
  have yn: "y = of_int n * u" and fin: "\<bar>y\<bar> < 2 ^ 1024"
    using assms x by (auto simp: toDouble_def Let_def e_def u_def n_def split: if_splits)
  have n0: "n \<noteq> 0" using y yn by auto
  have ay: "\<bar>y\<bar> = of_int \<bar>n\<bar> * u" using u by (simp add: yn abs_mult)
  have u2: "2 powi (e + 1) = 2 ^ 53 * u"
  proof -
    have "(2::rat) powi (e + 1) = 2 powi (53 + (e - 52))"
      by (rule arg_cong [of _ _ "\<lambda>k. 2 powi k"]) simp
    also have "\<dots> = 2 powi 53 * 2 powi (e - 52)" by (subst power_int_add) simp_all
    finally show ?thesis by (simp add: u_def)
  qed
  have u1: "2 powi e = 2 ^ 52 * u"
  proof -
    have "(2::rat) powi e = 2 powi (52 + (e - 52))"
      by (rule arg_cong [of _ _ "\<lambda>k. 2 powi k"]) simp
    also have "\<dots> = 2 powi 52 * 2 powi (e - 52)" by (subst power_int_add) simp_all
    finally show ?thesis by (simp add: u_def)
  qed
  \<comment> \<open>the significand has at most 53 bits\<close>
  have xhi: "\<bar>x\<bar> < 2 ^ 53 * u"
  proof -
    have "\<bar>x\<bar> < 2 powi (exponentOf x + 1)" by (rule exponentOf_bounds(2) [OF x])
    also have "\<dots> \<le> 2 powi (e + 1)" by (intro power_int_increasing) (simp_all add: e_def)
    finally show ?thesis by (simp add: u2)
  qed
  have n_hi: "\<bar>n\<bar> \<le> 2 ^ 53"
  proof -
    have b: "x / u \<le> of_int (2 ^ 53)" "of_int (- (2 ^ 53)) \<le> x / u"
      using xhi u by (simp_all add: field_simps abs_less_iff)
    have "n \<le> 2 ^ 53" unfolding n_def using b(1) by (rule roundTiesToEven_le)
    moreover have "- (2 ^ 53) \<le> n" unfolding n_def using b(2) by (rule roundTiesToEven_ge)
    ultimately show ?thesis by simp
  qed
  \<comment> \<open>in the normal range it has 53 bits\<close>
  have n_lo: "2 ^ 52 \<le> \<bar>n\<bar>" if "- 1022 \<le> exponentOf x"
  proof -
    from that have ee: "e = exponentOf x" by (simp add: e_def)
    have "2 ^ 52 * u \<le> \<bar>x\<bar>" using exponentOf_bounds(1) [OF x] by (simp add: ee [symmetric] u1)
    then consider "of_int (2 ^ 52) \<le> x / u" | "x / u \<le> of_int (- (2 ^ 52))"
      using u by (cases "0 \<le> x") (simp_all add: field_simps)
    then show ?thesis
    proof cases
      case 1
      then have "2 ^ 52 \<le> n" unfolding n_def by (rule roundTiesToEven_ge)
      then show ?thesis by simp
    next
      case 2
      then have "n \<le> - (2 ^ 52)" unfolding n_def by (rule roundTiesToEven_le)
      then show ?thesis by simp
    qed
  qed
  show ?thesis
  proof (cases "\<bar>n\<bar> = 2 ^ 53")
    case True
    have ay2: "\<bar>y\<bar> = 2 powi (e + 1)" by (simp add: ay True u2)
    have ex: "exponentOf y = e + 1"
    proof (rule exponentOf_eqI)
      show "2 powi (e + 1) \<le> \<bar>y\<bar>" by (simp add: ay2)
      have "(2::rat) powi (e + 1) < 2 powi (e + 1 + 1)" by (intro power_int_strict_increasing) simp_all
      then show "\<bar>y\<bar> < 2 powi (e + 1 + 1)" by (simp add: ay2)
    qed
    have ge: "- 1022 \<le> e" by (simp add: e_def)
    have m: "max (exponentOf y) (- 1022) = e + 1" using ge by (simp add: ex)
    have uu: "(2::rat) powi (e + 1 - 52) = 2 * u"
    proof -
      have "(2::rat) powi (e + 1 - 52) = 2 powi (1 + (e - 52))"
        by (rule arg_cong [of _ _ "\<lambda>k. 2 powi k"]) simp
      also have "\<dots> = 2 powi 1 * 2 powi (e - 52)" by (subst power_int_add) simp_all
      finally show ?thesis by (simp add: u_def)
    qed
    obtain k where k: "n = 2 * k"
      using True by (cases "0 \<le> n") (auto intro: that [of "2 ^ 52"] that [of "- (2 ^ 52)"])
    have q: "y / (2 * u) = of_int k" using u by (simp add: yn k)
    show ?thesis
      unfolding toDouble_def Let_def m uu q roundTiesToEven_of_int
      using y fin u by (simp add: yn k)
  next
    case False
    with n_hi have lt: "\<bar>n\<bar> < 2 ^ 53" by simp
    have yhi: "\<bar>y\<bar> < 2 powi (e + 1)"
      unfolding ay u2 using lt u by simp
    have m: "max (exponentOf y) (- 1022) = e"
    proof (cases "- 1022 \<le> exponentOf x")
      case True
      then have ee: "e = exponentOf x" by (simp add: e_def)
      have "2 powi e \<le> \<bar>y\<bar>"
        unfolding ay u1 using n_lo [OF True] u by simp
      then have "exponentOf y = e" using yhi by (rule exponentOf_eqI)
      then show ?thesis using True by (simp add: ee)
    next
      case False
      then have ee: "e = - 1022" by (simp add: e_def)
      have "exponentOf y \<le> e" using y yhi by (rule exponentOf_le)
      then show ?thesis by (simp add: ee)
    qed
    have q: "y / u = of_int n" using u by (simp add: yn)
    show ?thesis
      unfolding toDouble_def Let_def m u_def [symmetric] q roundTiesToEven_of_int
      using y fin by (simp add: yn)
  qed
qed

text \<open>
  The model at the edges of the format: a number halfway between two doubles goes to the one
  with the even significand, a number of magnitude \<open>2^1024\<close> is an infinity, and half the
  smallest double goes to 0.
\<close>

lemma toDouble_tie:
  "toDouble (2 ^ 53 + 1) = Some (2 ^ 53)" "toDouble (2 ^ 53 + 3) = Some (2 ^ 53 + 4)"
proof -
  have r1: "roundTiesToEven ((2 ^ 53 + 1) / 2 powi (max 53 (- 1022) - 52)) = 2 ^ 52"
    using roundTiesToEven_tie [of "2 ^ 52"] by simp
  have r3: "roundTiesToEven ((2 ^ 53 + 3) / 2 powi (max 53 (- 1022) - 52)) = 2 ^ 52 + 2"
    using roundTiesToEven_tie [of "2 ^ 52 + 1"] by simp
  show "toDouble (2 ^ 53 + 1) = Some (2 ^ 53)"
    using toDouble_eq [of 53 "2 ^ 53 + 1", OF _ _ r1] by simp
  show "toDouble (2 ^ 53 + 3) = Some (2 ^ 53 + 4)"
    using toDouble_eq [of 53 "2 ^ 53 + 3", OF _ _ r3] by simp
qed

lemma toDouble_overflow: "toDouble (2 ^ 1024) = None"
proof -
  have r: "roundTiesToEven (2 ^ 1024 / 2 powi (max 1024 (- 1022) - 52)) = 2 ^ 52"
    using roundTiesToEven_eqI [of "2 ^ 1024 / 2 powi (max 1024 (- 1022) - 52)" "2 ^ 52"] by simp
  show ?thesis
    using toDouble_eq [of 1024 "2 ^ 1024", OF _ _ r] by simp
qed

lemma toDouble_underflow: "toDouble (2 powi (- 1075)) = Some 0"
proof -
  have q: "(2::rat) powi (- 1075) / 2 powi (max (- 1075) (- 1022) - 52) = of_int 0 + 1 / 2"
    by (simp add: power_int_minus_divide)
  have r: "roundTiesToEven (2 powi (- 1075) / 2 powi (max (- 1075) (- 1022) - 52)) = 0"
    unfolding q roundTiesToEven_tie by simp
  show ?thesis
    using toDouble_eq [of "- 1075" "2 powi (- 1075)", OF _ _ r]
    by (simp add: power_int_minus_divide)
qed

text \<open>
  The quotients and products of the example months. 17/20 and 39/40 are not doubles; the
  doubles nearest to them lie below them. The product with 3000 is rounded to 2550; the
  product with 3001 stays below 2925.975.
\<close>

lemma quotient_17_20: "js_div 17 20 = Some (7656119366529843 / 2 ^ 53)"
  using toDouble_eqI [of "- 1" "17 / 20" 7656119366529843]
  by (simp add: js_div_def power_int_minus_divide)

lemma double_3000: "toDouble 3000 = Some 3000" and double_3001: "toDouble 3001 = Some 3001"
  using toDouble_eqI [of 11 3000 "3000 * 2 ^ 41"] toDouble_eqI [of 11 3001 "3001 * 2 ^ 41"]
  by (simp_all add: power_int_minus_divide)

lemma product_17_20_3000: "js_mul (js_div 17 20) (toDouble 3000) = Some 2550"
  unfolding quotient_17_20 double_3000
  using toDouble_eqI [of 11 "7656119366529843 / 2 ^ 53 * 3000" 5607509301657600]
  by (simp add: js_mul_def power_int_minus_divide)

lemma quotient_39_40: "js_div (39 / 2) 20 = Some (8782019273372467 / 2 ^ 53)"
  using toDouble_eqI [of "- 1" "39 / 40" 8782019273372467]
  by (simp add: js_div_def power_int_minus_divide)

lemma product_39_40_3001:
  "js_mul (js_div (39 / 2) 20) (toDouble 3001) = Some (6434287070163763 / 2 ^ 41)"
  unfolding quotient_39_40 double_3001
  using toDouble_eqI [of 11 "8782019273372467 / 2 ^ 53 * 3001" 6434287070163763]
  by (simp add: js_mul_def power_int_minus_divide)

lemma double_2550: "toDouble 2550 = Some 2550"
  using toDouble_eqI [of 11 2550 5607509301657600]
  by (simp add: power_int_minus_divide)

subsection \<open>\<^verbatim>\<open>toFixed(2)\<close>\<close>

lemma toFixed2_zero: "toFixed2 0 = 0"
proof -
  have "\<lfloor>1 / 2 :: rat\<rfloor> = 0" by (rule floor_unique) simp_all
  then show ?thesis by (simp add: toFixed2_def)
qed

lemma toFixed2_of_int: "toFixed2 (of_int n) = of_int n"
proof -
  have pos: "\<lfloor>(of_int n :: rat) * 100 + 1 / 2\<rfloor> = n * 100"
    by (rule floor_unique) simp_all
  have neg: "\<lfloor>- (of_int n :: rat) * 100 + 1 / 2\<rfloor> = - n * 100"
    by (rule floor_unique) simp_all
  show ?thesis
    unfolding toFixed2_def pos neg by simp
qed

lemma toFixed2_eqI:
  assumes "0 \<le> x" and "x < 10 ^ 21" and "of_int n \<le> x * 100 + 1 / 2" and "x * 100 + 1 / 2 < of_int n + 1"
  shows "toFixed2 x = of_int n / 100"
proof -
  have "\<lfloor>x * 100 + 1 / 2\<rfloor> = n" unfolding floor_eq_iff using assms(3,4) by simp
  then show ?thesis using assms(1,2) by (simp add: toFixed2_def)
qed


text \<open>A tie is printed away from zero: 0.125 as 0.13 and -0.125 as -0.13.\<close>

lemma toFixed2_tie: "toFixed2 (1 / 8) = 13 / 100" "toFixed2 (- (1 / 8)) = - (13 / 100)"
proof -
  have f: "\<lfloor>1 / 8 * 100 + 1 / 2 :: rat\<rfloor> = 13" unfolding floor_eq_iff by simp
  show "toFixed2 (1 / 8) = 13 / 100" using f by (simp add: toFixed2_def)
  show "toFixed2 (- (1 / 8)) = - (13 / 100)" using f by (simp add: toFixed2_def)
qed

text \<open>The salaries of the example months, printed and read back.\<close>

lemma salary_2550: "parseFloat_toFixed2 (js_mul (js_div 17 20) (toDouble 3000)) = Some 2550"
  unfolding product_17_20_3000 parseFloat_toFixed2_def
  using toFixed2_of_int [of 2550] by (simp add: double_2550)

lemma salary_2925_97:
  "parseFloat_toFixed2 (js_mul (js_div (39 / 2) 20) (toDouble 3001)) = toDouble (292597 / 100)"
proof -
  have "toFixed2 (6434287070163763 / 2 ^ 41) = 292597 / 100"
    using toFixed2_eqI [of "6434287070163763 / 2 ^ 41" 292597] by simp
  then show ?thesis
    unfolding product_39_40_3001 parseFloat_toFixed2_def option.case by (rule arg_cong)
qed

subsection \<open>The rows of the summary\<close>

lemma calculateSummary_length:
  "0 < monthlyWorkingDays s \<Longrightarrow> length (summaryData (calculateSummary s)) = length (facultyList s)"
  by (simp add: calculateSummary_def Let_def)

lemma calculateSummary_nth:
  "0 < monthlyWorkingDays s \<Longrightarrow> i < length (facultyList s) \<Longrightarrow>
   summaryData (calculateSummary s) ! i =
     summaryRow (actualWorkingDays s) (permissionLimit s)
       (attendanceByEmp (filter (\<lambda>r. startsWith (att_date r) (selectedMonth s)) (rawAttendance s)))
       (facultyList s ! i)"
  by (auto simp: calculateSummary_def Let_def)

lemma summaryRow_records:
  "(case attendanceByEmp (filter (\<lambda>r. startsWith (att_date r) (selectedMonth s)) (rawAttendance s)) e of
      None \<Rightarrow> [] | Some rs \<Rightarrow> rs) = recordsInMonth s e"
  by (simp add: attendanceByEmp_get recordsInMonth_def)

lemma row_empId: "ms_empId (summaryRow w l b f) = fac_empId f"
  and row_name: "ms_name (summaryRow w l b f) = fac_name f"
  and row_dept: "ms_dept (summaryRow w l b f) = fac_dept f"
  and row_designation: "ms_designation (summaryRow w l b f) = fac_designation f"
  and row_monthlySalary: "ms_monthlySalary (summaryRow w l b f) = fac_salary f"
  by (simp_all only: summaryRow_def Let_def MonthlySummary.select_convs)

lemma row_presentDays:
  "presentDays (summaryRow w l b f) = int (length (filter (\<lambda>r. att_status r \<noteq> Absent) (rowRecords b f)))"
  by (simp only: summaryRow_def Let_def MonthlySummary.select_convs rowRecords_def)

lemma row_available: "casualLeavesAvailable (summaryRow w l b f) = or0 (fac_casualLeaves f)"
  by (simp only: summaryRow_def Let_def MonthlySummary.select_convs)

lemma row_used:
  "casualLeavesUsed (summaryRow w l b f) =
     min (max 0 (w - presentDays (summaryRow w l b f))) (or0 (fac_casualLeaves f))"
  by (simp only: summaryRow_def Let_def MonthlySummary.select_convs)

lemma row_unpaid:
  "unpaidLeave (summaryRow w l b f) =
     max 0 (w - presentDays (summaryRow w l b f)) - casualLeavesUsed (summaryRow w l b f)"
  by (simp only: summaryRow_def Let_def MonthlySummary.select_convs)

lemma row_permissions:
  "permissions (summaryRow w l b f) = min (int (length (filter (\<lambda>r. att_status r = Late) (rowRecords b f)))) l"
  by (simp only: summaryRow_def Let_def MonthlySummary.select_convs rowRecords_def)

lemma row_halfDay:
  "halfDayLeaves (summaryRow w l b f) = max 0 (int (length (filter (\<lambda>r. att_status r = Late) (rowRecords b f))) - l)"
  by (simp only: summaryRow_def Let_def MonthlySummary.select_convs rowRecords_def)

lemma row_totalLeaves:
  "totalLeaves (summaryRow w l b f) =
     of_int (unpaidLeave (summaryRow w l b f)) + of_int (halfDayLeaves (summaryRow w l b f)) * (1 / 2)"
  by (simp only: summaryRow_def Let_def MonthlySummary.select_convs)

lemma row_payableDays:
  "payableDays (summaryRow w l b f) = max 0 (of_int w - totalLeaves (summaryRow w l b f))"
  by (simp only: summaryRow_def Let_def MonthlySummary.select_convs)

lemma row_salary:
  "calculatedSalary (summaryRow w l b f) =
     parseFloat_toFixed2
       (if w > 0 then js_mul (js_div (payableDays (summaryRow w l b f)) (of_int w)) (toDouble (or0 (fac_salary f)))
        else Some 0)"
  by (simp only: summaryRow_def Let_def MonthlySummary.select_convs)

lemma row_salary_zero: "\<not> 0 < w \<Longrightarrow> calculatedSalary (summaryRow w l b f) = Some 0"
  unfolding row_salary by (simp add: parseFloat_toFixed2_def toFixed2_zero toDouble_zero)


lemma rowRecords_inMonth:
  "rowRecords (attendanceByEmp (filter (\<lambda>r. startsWith (att_date r) (selectedMonth s)) (rawAttendance s))) f
   = recordsInMonth s (fac_empId f)"
  by (simp add: rowRecords_def summaryRow_records)


text \<open>
  Claim C8. In a month whose working days are all taken by holidays, every employee's row
  has the calculated salary 0: the quotient by the working days is not evaluated, so the
  salary is a number (\<open>Some\<close>), not the outcome of a division by zero.
\<close>

theorem workingDays_zero_salary:
  assumes "0 < monthlyWorkingDays s" and "i < length (facultyList s)" and "actualWorkingDays s = 0"
  shows "length (summaryData (calculateSummary s)) = length (facultyList s)
       \<and> ms_empId (summaryData (calculateSummary s) ! i) = fac_empId (facultyList s ! i)
       \<and> calculatedSalary (summaryData (calculateSummary s) ! i) = Some 0"
  unfolding calculateSummary_nth [OF assms(1,2)] calculateSummary_length [OF assms(1)] row_empId assms(3)
  by (simp add: row_salary_zero)


theorem workingDays_zero_salary_witness:
  "0 < monthlyWorkingDays holidayState \<and> (0::nat) < length (facultyList holidayState)
   \<and> actualWorkingDays holidayState = 0
   \<and> calculatedSalary (summaryData (calculateSummary holidayState) ! 0) = Some 0"
proof -
  have h: "0 < monthlyWorkingDays holidayState" "0 < length (facultyList holidayState)"
    by (simp_all add: holidayState_def)
  have w: "actualWorkingDays holidayState = 0"
    by (simp add: actualWorkingDays_def holidaysInMonth_def holidayState_def startsWith_def)
  from workingDays_zero_salary [OF h w] h w show ?thesis by simp
qed

section \<open>The monthly allocation\<close>

lemma set_alist_update: "set (AList.update k v al) \<subseteq> insert (k, v) (set al)"
  by (induction al) auto

lemma casualUpdates_foldl:
  fixes key :: "'a \<Rightarrow> int" and val :: "'a \<Rightarrow> int" and P :: "'a \<Rightarrow> bool"
  defines "step \<equiv> (\<lambda>(updates, n) x.
              if P x then (AList.update (FacultyCasualLeavesPath (key x)) (JNum (val x)) updates, n + (1::nat))
              else (updates, n))"
  assumes "distinct (map key xs)" and "\<forall>w \<in> set acc. casualLeaveWrite w"
    and "\<forall>x \<in> set xs. map_of acc (FacultyCasualLeavesPath (key x)) = None"
    and "distinct (map fst acc)"
  shows "(\<forall>w \<in> set (fst (foldl step (acc, k) xs)). casualLeaveWrite w)
       \<and> distinct (map fst (fst (foldl step (acc, k) xs)))
       \<and> (\<forall>e. map_of (fst (foldl step (acc, k) xs)) (FacultyCasualLeavesPath e) =
            (case find (\<lambda>x. key x = e) xs of
               None \<Rightarrow> map_of acc (FacultyCasualLeavesPath e)
             | Some x \<Rightarrow> if P x then Some (JNum (val x)) else None))
       \<and> snd (foldl step (acc, k) xs) = k + length (filter P xs)"
  using assms(2-)
proof (induction xs arbitrary: acc k)
  case Nil
  then show ?case by simp
next
  case (Cons f fl)
  have "key f \<notin> key ` set fl" using Cons.prems(1) by simp
  then have ne: "\<And>g. g \<in> set fl \<Longrightarrow> key g \<noteq> key f"
    by (metis imageI)
  have nf: "find (\<lambda>g. key g = key f) fl = None"
    using ne by (auto simp: find_None_iff)
  show ?case
  proof (cases "P f")
    case False
    have s: "step (acc, k) f = (acc, k)" using False by (simp add: step_def)
    have IH: "(\<forall>w \<in> set (fst (foldl step (acc, k) fl)). casualLeaveWrite w)
       \<and> distinct (map fst (fst (foldl step (acc, k) fl)))
       \<and> (\<forall>e. map_of (fst (foldl step (acc, k) fl)) (FacultyCasualLeavesPath e) =
            (case find (\<lambda>x. key x = e) fl of
               None \<Rightarrow> map_of acc (FacultyCasualLeavesPath e)
             | Some x \<Rightarrow> if P x then Some (JNum (val x)) else None))
       \<and> snd (foldl step (acc, k) fl) = k + length (filter P fl)"
      using Cons.prems by (intro Cons.IH) auto
    show ?thesis
      using IH False Cons.prems(3) nf by (auto simp: s)
  next
    case True
    let ?acc' = "AList.update (FacultyCasualLeavesPath (key f)) (JNum (val f)) acc"
    have s: "step (acc, k) f = (?acc', k + 1)" using True by (simp add: step_def)
    have a1: "\<forall>w \<in> set ?acc'. casualLeaveWrite w"
      using Cons.prems(2) set_alist_update [of "FacultyCasualLeavesPath (key f)" "JNum (val f)" acc]
      by (auto simp: casualLeaveWrite_def)
    have a2: "\<forall>g \<in> set fl. map_of ?acc' (FacultyCasualLeavesPath (key g)) = None"
      using ne Cons.prems(3) by (auto simp: update_conv')
    have a3: "distinct (map fst ?acc')" using Cons.prems(4) by (simp add: distinct_update)
    have IH: "(\<forall>w \<in> set (fst (foldl step (?acc', k + 1) fl)). casualLeaveWrite w)
       \<and> distinct (map fst (fst (foldl step (?acc', k + 1) fl)))
       \<and> (\<forall>e. map_of (fst (foldl step (?acc', k + 1) fl)) (FacultyCasualLeavesPath e) =
            (case find (\<lambda>x. key x = e) fl of
               None \<Rightarrow> map_of ?acc' (FacultyCasualLeavesPath e)
             | Some x \<Rightarrow> if P x then Some (JNum (val x)) else None))
       \<and> snd (foldl step (?acc', k + 1) fl) = k + 1 + length (filter P fl)"
      using Cons.prems(1) a1 a2 a3 by (intro Cons.IH) auto
    show ?thesis
      using IH True nf by (auto simp: s update_conv' split: option.splits)
  qed
qed

lemma casualUpdates_casual_foldl:
  "\<forall>w \<in> set acc. casualLeaveWrite w \<Longrightarrow>
   \<forall>w \<in> set (fst (foldl (\<lambda>(updates, n) x.
              if P x then (AList.update (FacultyCasualLeavesPath (key x)) (JNum (val x)) updates, n + (1::nat))
              else (updates, n)) (acc, k) xs)). casualLeaveWrite w"
proof (induction xs arbitrary: acc k)
  case Nil
  then show ?case by simp
next
  case (Cons f fl)
  have "\<forall>w \<in> set (AList.update (FacultyCasualLeavesPath (key f)) (JNum (val f)) acc). casualLeaveWrite w"
    using Cons.prems set_alist_update [of "FacultyCasualLeavesPath (key f)" "JNum (val f)" acc]
    by (auto simp: casualLeaveWrite_def)
  with Cons show ?case by simp
qed

lemma facultyWithAbsences_iff:
  "e \<in> set (facultyWithAbsences m att) \<longleftrightarrow> hasAbsentRecord att m e"
  by (induction att) (auto simp: facultyWithAbsences_def hasAbsentRecord_def)

lemma allocationOf_casual: "\<forall>w \<in> set (fst (allocationOf db m)). casualLeaveWrite w"
  unfolding allocationOf_def allocationUpdates_def
  by (rule casualUpdates_casual_foldl) simp

lemma allocationUpdates_props:
  assumes "distinct (map fac_empId fl)"
  shows "\<forall>w \<in> set (fst (allocationUpdates W fl)). casualLeaveWrite w"
    and "distinct (map fst (fst (allocationUpdates W fl)))"
    and "map_of (fst (allocationUpdates W fl)) (FacultyCasualLeavesPath e) =
            (case find (\<lambda>f. fac_empId f = e) fl of
               None \<Rightarrow> None
             | Some f \<Rightarrow> if e \<in> set W then None else Some (JNum (or0 (fac_casualLeaves f) + 1)))"
    and "snd (allocationUpdates W fl) = length (filter (\<lambda>f. fac_empId f \<notin> set W) fl)"
  using casualUpdates_foldl [of fac_empId fl "[]" "\<lambda>f. fac_empId f \<notin> set W"
      "\<lambda>f. or0 (fac_casualLeaves f) + 1" 0, OF assms]
  unfolding allocationUpdates_def
  by (simp_all split: option.splits) (auto dest: find_Some_iff [THEN iffD1])

lemma writeKey_casual:
  assumes "casualLeaveWrite w"
  shows "attendance (writeKey db w) = attendance db"
    and "leaveApplicationNodes (writeKey db w) = leaveApplicationNodes db"
    and "monthlyAllocations (writeKey db w) = monthlyAllocations db"
  using assms by (auto simp: casualLeaveWrite_def split: prod.splits path.splits json.splits)

lemma foldl_casual_other:
  assumes "\<forall>w \<in> set ups. casualLeaveWrite w"
  shows "attendance (foldl writeKey db ups) = attendance db"
    and "leaveApplicationNodes (foldl writeKey db ups) = leaveApplicationNodes db"
    and "monthlyAllocations (foldl writeKey db ups) = monthlyAllocations db"
  using assms by (induction ups arbitrary: db) (simp_all add: writeKey_casual)

lemma foldl_casual_faculty:
  assumes "\<forall>w \<in> set ups. casualLeaveWrite w" and "distinct (map fst ups)"
  shows "map_of (faculty (foldl writeKey db ups)) e =
           (case map_of ups (FacultyCasualLeavesPath e) of
              Some (JNum n) \<Rightarrow>
                Some ((case map_of (faculty db) e of None \<Rightarrow> emptyFacultyNode | Some node \<Rightarrow> node)
                        \<lparr>node_casualLeaves := Some n\<rparr>)
            | _ \<Rightarrow> map_of (faculty db) e)"
  using assms
proof (induction ups arbitrary: db)
  case Nil
  then show ?case by simp
next
  case (Cons w ups)
  from Cons.prems(1) obtain e' n' where w: "w = (FacultyCasualLeavesPath e', JNum n')"
    by (cases w) (auto simp: casualLeaveWrite_def split: path.splits json.splits)
  let ?db = "writeKey db w"
  have IH: "map_of (faculty (foldl writeKey ?db ups)) e =
           (case map_of ups (FacultyCasualLeavesPath e) of
              Some (JNum n) \<Rightarrow>
                Some ((case map_of (faculty ?db) e of None \<Rightarrow> emptyFacultyNode | Some node \<Rightarrow> node)
                        \<lparr>node_casualLeaves := Some n\<rparr>)
            | _ \<Rightarrow> map_of (faculty ?db) e)"
    using Cons.prems by (intro Cons.IH) auto
  have none: "map_of ups (FacultyCasualLeavesPath e') = None"
    using Cons.prems(2) by (auto simp: w map_of_eq_None_iff)
  show ?case
  proof (cases "e = e'")
    case True
    then show ?thesis using IH none by (simp add: w update_conv' split: option.splits json.splits)
  next
    case False
    then show ?thesis using IH by (simp add: w update_conv' split: option.splits json.splits)
  qed
qed

lemma fac_empId_toFacultyRecord: "map fac_empId (map toFacultyRecord al) = map fst al"
  by (induction al) (auto simp: toFacultyRecord_def)

lemma find_toFacultyRecord:
  "distinct (map fst al) \<Longrightarrow> (e, node) \<in> set al \<Longrightarrow>
   find (\<lambda>f. fac_empId f = e) (map toFacultyRecord al) = Some (toFacultyRecord (e, node))"
proof (induction al)
  case Nil
  then show ?case by simp
next
  case (Cons a al)
  obtain e' n' where a: "a = (e', n')" by (cases a)
  show ?case
  proof (cases "e' = e")
    case True
    from Cons.prems(1) a True have "e \<notin> fst ` set al" by simp
    then have "(e, node) \<notin> set al" by (metis fst_conv imageI)
    with Cons.prems(2) a True have "n' = node" by simp
    with True a show ?thesis by (simp add: toFacultyRecord_def)
  next
    case False
    with Cons a show ?thesis by (auto simp: toFacultyRecord_def)
  qed
qed

lemma allocate_ok:
  assumes "faculty db \<noteq> []"
  shows "allocate now None db m =
     ((if snd (allocationOf db m) > 0 then [(Update (fst (allocationOf db m)), True)] else [])
      @ [(Set (MonthlyAllocationPath m)
            (JAllocation \<lparr>completed = True, timestamp = now, updatedCount = snd (allocationOf db m)\<rparr>), True)],
      Inr (snd (allocationOf db m)))"
  using assms by (simp add: allocate_def Let_def allocationOf_def)

lemma run_append: "run db (xs @ ys) = run (run db xs) ys"
  by (simp add: run_def)

lemma run_single: "run db [(c, True)] = applyCall db c" and run_failed: "run db [(c, False)] = db"
  and run_Nil: "run db [] = db"
  by (simp_all add: run_def)

lemma handleAllocateCL_locked:
  "isAllocationComplete st \<Longrightarrow>
   handleAllocateCL now fault db st = (st\<lparr>feedback := Some (Error, AlreadyCompleted)\<rparr>, [])"
  by (simp add: handleAllocateCL_def)

lemma handleAllocateCL_ok:
  assumes "\<not> isAllocationComplete st" and "faculty db \<noteq> []"
  shows "snd (handleAllocateCL now None db st) = fst (allocate now None db (ma_selectedMonth st))"
    and "isAllocationComplete (fst (handleAllocateCL now None db st))"
    and "ma_selectedMonth (fst (handleAllocateCL now None db st)) = ma_selectedMonth st"
    and "feedback (fst (handleAllocateCL now None db st)) =
           Some (Success, if snd (allocationOf db (ma_selectedMonth st)) = 0 then NoneEligible
                          else Allocated (snd (allocationOf db (ma_selectedMonth st))))"
  using assms by (simp_all add: handleAllocateCL_def Let_def allocate_ok)

lemma allocationOf_props:
  assumes "distinct (map fst (faculty db))"
  shows "\<forall>w \<in> set (fst (allocationOf db m)). casualLeaveWrite w"
    and "distinct (map fst (fst (allocationOf db m)))"
    and "(e, node) \<in> set (faculty db) \<Longrightarrow>
         map_of (fst (allocationOf db m)) (FacultyCasualLeavesPath e) =
           (if hasAbsentRecord (attendance db) m e then None
            else Some (JNum (or0 (node_casualLeaves node) + 1)))"
    and "(e, node) \<in> set (faculty db) \<Longrightarrow> \<not> hasAbsentRecord (attendance db) m e \<Longrightarrow>
         0 < snd (allocationOf db m)"
proof -
  have d: "distinct (map fac_empId (map toFacultyRecord (faculty db)))"
    using assms by (simp only: fac_empId_toFacultyRecord)
  note P = allocationUpdates_props [OF d, of "facultyWithAbsences m (attendance db)", folded allocationOf_def]
  show "\<forall>w \<in> set (fst (allocationOf db m)). casualLeaveWrite w" by (rule P(1))
  show "distinct (map fst (fst (allocationOf db m)))" by (rule P(2))
  show "map_of (fst (allocationOf db m)) (FacultyCasualLeavesPath e) =
           (if hasAbsentRecord (attendance db) m e then None
            else Some (JNum (or0 (node_casualLeaves node) + 1)))" if "(e, node) \<in> set (faculty db)"
    unfolding P(3) find_toFacultyRecord [OF assms that]
    by (simp add: facultyWithAbsences_iff toFacultyRecord_def)
  show "0 < snd (allocationOf db m)"
    if "(e, node) \<in> set (faculty db)" and "\<not> hasAbsentRecord (attendance db) m e"
  proof -
    have "toFacultyRecord (e, node) \<in> set (filter (\<lambda>f. fac_empId f \<notin> set (facultyWithAbsences m (attendance db)))
            (map toFacultyRecord (faculty db)))"
      using that by (auto simp: facultyWithAbsences_iff toFacultyRecord_def intro: rev_image_eqI)
    then have "filter (\<lambda>f. fac_empId f \<notin> set (facultyWithAbsences m (attendance db)))
            (map toFacultyRecord (faculty db)) \<noteq> []"
      by (metis empty_iff empty_set)
    then show ?thesis unfolding P(4) length_greater_0_conv .
  qed
qed

lemma run_allocate:
  assumes "faculty db \<noteq> []" and "\<forall>w \<in> set (fst (allocationOf db m)). casualLeaveWrite w"
  shows "monthlyAllocations (run db (fst (allocate now None db m))) m =
           Some \<lparr>completed = True, timestamp = now, updatedCount = snd (allocationOf db m)\<rparr>"
    and "faculty (run db (fst (allocate now None db m))) =
           (if 0 < snd (allocationOf db m) then faculty (foldl writeKey db (fst (allocationOf db m)))
            else faculty db)"
    and "attendance (run db (fst (allocate now None db m))) = attendance db"
  using assms(2)
  by (simp_all add: allocate_ok [OF assms(1)] run_append run_single run_Nil foldl_casual_other)

lemma handleAllocateCL_faculty:
  assumes "\<not> isAllocationComplete st" and "distinct (map fst (faculty db))"
    and "(e, node) \<in> set (faculty db)"
  shows "let r = handleAllocateCL now None db st; db' = run db (snd r)
         in isAllocationComplete (fst r)
          \<and> map_of (faculty db') e =
              Some (if hasAbsentRecord (attendance db) (ma_selectedMonth st) e then node
                    else node\<lparr>node_casualLeaves := Some (or0 (node_casualLeaves node) + 1)\<rparr>)"
proof -
  let ?m = "ma_selectedMonth st"
  have ne: "faculty db \<noteq> []" using assms(3) by auto
  have before: "map_of (faculty db) e = Some node"
    using assms(2,3) by (rule map_of_is_SomeI)
  note A = allocationOf_props [OF assms(2), where m = ?m]
  note H = handleAllocateCL_ok [OF assms(1) ne, where now = now]
  note R = run_allocate [OF ne A(1), where now = now]
  note F = foldl_casual_faculty [OF A(1) A(2), where db = db and e = e]
  have "map_of (faculty (run db (fst (allocate now None db ?m)))) e =
              Some (if hasAbsentRecord (attendance db) ?m e then node
                    else node\<lparr>node_casualLeaves := Some (or0 (node_casualLeaves node) + 1)\<rparr>)"
  proof (cases "hasAbsentRecord (attendance db) ?m e")
    case True
    then show ?thesis
      unfolding R(2) using F A(3) [OF assms(3)] before by simp
  next
    case False
    then show ?thesis
      unfolding R(2) using F A(3) [OF assms(3)] A(4) [OF assms(3) False] before by simp
  qed
  then show ?thesis
    unfolding Let_def H(1) using H(2) by simp
qed

text \<open>
  Claim C2. When \<^verbatim>\<open>handleAllocateCL\<close> runs to completion on a month that is not locked,
  an employee of the faculty collection with at least one Absent record in that month keeps
  the stored node unchanged (no increment), and an employee with no Absent record has the
  casual-leave balance incremented by exactly 1 (a missing balance counts as 0).
\<close>

theorem allocate_eligibility:
  assumes "\<not> isAllocationComplete st" and "distinct (map fst (faculty db))"
    and "(e, node) \<in> set (faculty db)"
  shows "let r = handleAllocateCL now None db st; db' = run db (snd r)
         in isAllocationComplete (fst r)
          \<and> map_of (faculty db') e =
              Some (if hasAbsentRecord (attendance db) (ma_selectedMonth st) e then node
                    else node\<lparr>node_casualLeaves := Some (or0 (node_casualLeaves node) + 1)\<rparr>)"
  using assms by (rule handleAllocateCL_faculty)

text \<open>
  Claim C9. A run to completion on an unlocked month ends with the \<^verbatim>\<open>set\<close> of the marker
  \<^verbatim>\<open>{completed: true, timestamp, updatedCount}\<close> for that month, which the store then
  holds; the component is locked. When \<^verbatim>\<open>updatedCount\<close> is 0 that \<^verbatim>\<open>set\<close> is the only
  store call, and the month is locked all the same.
\<close>

theorem allocate_writes_marker:
  assumes "\<not> isAllocationComplete st" and "faculty db \<noteq> []"
  shows "let m = ma_selectedMonth st; r = handleAllocateCL now None db st;
             n = snd (allocationOf db m);
             marker = \<lparr>completed = True, timestamp = now, updatedCount = n\<rparr>
         in snd r \<noteq> []
          \<and> last (snd r) = (Set (MonthlyAllocationPath m) (JAllocation marker), True)
          \<and> monthlyAllocations (run db (snd r)) m = Some marker
          \<and> isAllocationComplete (fst r)
          \<and> (n = 0 \<longrightarrow> snd r = [(Set (MonthlyAllocationPath m) (JAllocation marker), True)]
                        \<and> feedback (fst r) = Some (Success, NoneEligible))"
proof -
  let ?m = "ma_selectedMonth st"
  note H = handleAllocateCL_ok [OF assms(1,2), where now = now]
  note R = run_allocate [OF assms(2) allocationOf_casual, where now = now]
  show ?thesis
    unfolding Let_def H(1) R(1) using H(2) H(4)
    by (simp add: allocate_ok [OF assms(2)])
qed

text \<open>
  When the read of \<^verbatim>\<open>checkStatus\<close> fails, the flag stays unset and the component only
  reports that the status could not be verified.
\<close>

lemma checkStatus_read_failure:
  "\<not> isAllocationComplete (checkStatus False db st)"
  "feedback (checkStatus False db st) = Some (Error, CouldNotVerify)"
  by (simp_all add: checkStatus_def Let_def)

lemma checkStatus_completed:
  "monthlyAllocations db (ma_selectedMonth st) = Some a \<Longrightarrow> completed a \<Longrightarrow>
   isAllocationComplete (checkStatus True db st)"
  by (simp add: checkStatus_def Let_def)

text \<open>
  The guard of \<^verbatim>\<open>handleAllocateCL\<close>. Once the marker of a month says completed, selecting
  that month (which runs \<^verbatim>\<open>checkStatus\<close>) with a status read that succeeds, and then
  calling \<^verbatim>\<open>handleAllocateCL\<close>, gives the feedback "already completed" and issues no
  store call. The same holds whenever the component's flag is set. In particular, after a
  first call that ran to completion the marker is completed, and a second call, with or
  without a fresh and successful status check in between, fails in this way with no store
  call.
\<close>

lemma allocate_once:
  "(\<forall>a. monthlyAllocations db m = Some a \<and> completed a \<longrightarrow>
      handleAllocateCL now fault db (setSelectedMonth True db m st) =
        ((setSelectedMonth True db m st)\<lparr>feedback := Some (Error, AlreadyCompleted)\<rparr>, []))
   \<and> (isAllocationComplete st \<longrightarrow>
        handleAllocateCL now fault db st = (st\<lparr>feedback := Some (Error, AlreadyCompleted)\<rparr>, []))
   \<and> (\<not> isAllocationComplete st \<and> faculty db \<noteq> [] \<longrightarrow>
        (let r1 = handleAllocateCL now None db st; db1 = run db (snd r1)
         in (\<exists>a. monthlyAllocations db1 (ma_selectedMonth st) = Some a \<and> completed a)
          \<and> handleAllocateCL now' fault db1 (fst r1) =
              ((fst r1)\<lparr>feedback := Some (Error, AlreadyCompleted)\<rparr>, [])
          \<and> handleAllocateCL now' fault db1 (checkStatus True db1 (fst r1)) =
              ((checkStatus True db1 (fst r1))\<lparr>feedback := Some (Error, AlreadyCompleted)\<rparr>, [])))"
proof (intro conjI allI impI)
  fix a
  assume "monthlyAllocations db m = Some a \<and> completed a"
  then have "isAllocationComplete (setSelectedMonth True db m st)"
    unfolding setSelectedMonth_def by (intro checkStatus_completed [where a = a]) simp_all
  then show "handleAllocateCL now fault db (setSelectedMonth True db m st) =
        ((setSelectedMonth True db m st)\<lparr>feedback := Some (Error, AlreadyCompleted)\<rparr>, [])"
    by (rule handleAllocateCL_locked)
next
  assume "isAllocationComplete st"
  then show "handleAllocateCL now fault db st = (st\<lparr>feedback := Some (Error, AlreadyCompleted)\<rparr>, [])"
    by (rule handleAllocateCL_locked)
next
  assume h: "\<not> isAllocationComplete st \<and> faculty db \<noteq> []"
  then have h1: "\<not> isAllocationComplete st" and h2: "faculty db \<noteq> []" by simp_all
  note H = handleAllocateCL_ok [OF h1 h2, where now = now]
  note R = run_allocate [OF h2 allocationOf_casual, where now = now and m = "ma_selectedMonth st"]
  let ?r1 = "handleAllocateCL now None db st"
  let ?db1 = "run db (snd ?r1)"
  have marker: "monthlyAllocations ?db1 (ma_selectedMonth st) =
      Some \<lparr>completed = True, timestamp = now, updatedCount = snd (allocationOf db (ma_selectedMonth st))\<rparr>"
    unfolding H(1) by (rule R(1))
  then have ex: "\<exists>a. monthlyAllocations ?db1 (ma_selectedMonth st) = Some a \<and> completed a"
    by simp
  have second: "handleAllocateCL now' fault ?db1 (fst ?r1) =
              ((fst ?r1)\<lparr>feedback := Some (Error, AlreadyCompleted)\<rparr>, [])"
    using H(2) by (rule handleAllocateCL_locked)
  have "isAllocationComplete (checkStatus True ?db1 (fst ?r1))"
    by (rule checkStatus_completed [where a = "\<lparr>completed = True, timestamp = now, updatedCount = snd (allocationOf db (ma_selectedMonth st))\<rparr>"])
       (simp_all add: H(3) marker)
  then have third: "handleAllocateCL now' fault ?db1 (checkStatus True ?db1 (fst ?r1)) =
              ((checkStatus True ?db1 (fst ?r1))\<lparr>feedback := Some (Error, AlreadyCompleted)\<rparr>, [])"
    by (rule handleAllocateCL_locked)
  show "let r1 = handleAllocateCL now None db st; db1 = run db (snd r1)
         in (\<exists>a. monthlyAllocations db1 (ma_selectedMonth st) = Some a \<and> completed a)
          \<and> handleAllocateCL now' fault db1 (fst r1) =
              ((fst r1)\<lparr>feedback := Some (Error, AlreadyCompleted)\<rparr>, [])
          \<and> handleAllocateCL now' fault db1 (checkStatus True db1 (fst r1)) =
              ((checkStatus True db1 (fst r1))\<lparr>feedback := Some (Error, AlreadyCompleted)\<rparr>, [])"
    unfolding Let_def using ex second third by (intro conjI)
qed

text \<open>Employee 1 (absent once) stays at 2 casual leaves; employee 2 goes from 0 to 1.\<close>

theorem allocate_eligibility_witness:
  "\<not> isAllocationComplete exampleActions \<and> distinct (map fst (faculty exampleDb))
   \<and> (1, exampleNode (Some 2)) \<in> set (faculty exampleDb)
   \<and> (2, exampleNode (Some 0)) \<in> set (faculty exampleDb)
   \<and> hasAbsentRecord (attendance exampleDb) (ma_selectedMonth exampleActions) 1
   \<and> \<not> hasAbsentRecord (attendance exampleDb) (ma_selectedMonth exampleActions) 2
   \<and> (let db' = run exampleDb (snd (handleAllocateCL exampleNow None exampleDb exampleActions))
      in storedCasualLeaves exampleDb 1 = Some 2 \<and> storedCasualLeaves db' 1 = Some 2
       \<and> storedCasualLeaves exampleDb 2 = Some 0 \<and> storedCasualLeaves db' 2 = Some 1)"
proof -
  have h1: "\<not> isAllocationComplete exampleActions" by (simp add: exampleActions_def)
  have h2: "distinct (map fst (faculty exampleDb))" by (simp add: exampleDb_def)
  have m1: "(1, exampleNode (Some 2)) \<in> set (faculty exampleDb)"
    and m2: "(2, exampleNode (Some 0)) \<in> set (faculty exampleDb)"
    by (simp_all add: exampleDb_def)
  have a1: "hasAbsentRecord (attendance exampleDb) (ma_selectedMonth exampleActions) 1"
    and a2: "\<not> hasAbsentRecord (attendance exampleDb) (ma_selectedMonth exampleActions) 2"
    by (simp_all add: hasAbsentRecord_def exampleDb_def exampleActions_def startsWith_def attNode_def)
  have b: "storedCasualLeaves exampleDb 1 = Some 2" "storedCasualLeaves exampleDb 2 = Some 0"
    by (simp_all add: storedCasualLeaves_def exampleDb_def exampleNode_def)
  from allocate_eligibility [OF h1 h2 m1, of exampleNow] allocate_eligibility [OF h1 h2 m2, of exampleNow]
  show ?thesis
    unfolding Let_def using h1 h2 m1 m2 a1 a2 b
    by (simp add: storedCasualLeaves_def exampleNode_def or0_def)
qed

text \<open>A roster whose only employee was absent: no increment, and the marker is written.\<close>

theorem allocate_writes_marker_witness:
  "\<not> isAllocationComplete exampleActions \<and> faculty allAbsentDb \<noteq> []
   \<and> snd (allocationOf allAbsentDb (2024, 1)) = 0
   \<and> (let r = handleAllocateCL exampleNow None allAbsentDb exampleActions;
          marker = \<lparr>completed = True, timestamp = exampleNow, updatedCount = 0\<rparr>
      in snd r = [(Set (MonthlyAllocationPath (2024, 1)) (JAllocation marker), True)]
       \<and> monthlyAllocations (run allAbsentDb (snd r)) (2024, 1) = Some marker
       \<and> isAllocationComplete (fst r))"
proof -
  have h1: "\<not> isAllocationComplete exampleActions" by (simp add: exampleActions_def)
  have h2: "faculty allAbsentDb \<noteq> []" by (simp add: allAbsentDb_def)
  have m: "ma_selectedMonth exampleActions = (2024, 1)" by (simp add: exampleActions_def)
  have n: "snd (allocationOf allAbsentDb (2024, 1)) = 0"
    by (simp add: allocationOf_def allocationUpdates_def facultyWithAbsences_def allAbsentDb_def
          exampleDb_def toFacultyRecord_def startsWith_def attNode_def)
  from allocate_writes_marker [OF h1 h2, of exampleNow] show ?thesis
    unfolding Let_def m n using h1 h2 by (simp add: run_single)
qed

text \<open>The three parts at a locked database, a set flag, and two calls in sequence.\<close>

lemma allocate_once_example:
  "(monthlyAllocations lockedDb (2024, 1) = Some lockedMarker \<and> completed lockedMarker)
   \<and> handleAllocateCL exampleNow None lockedDb (setSelectedMonth True lockedDb (2024, 1) exampleActions) =
       ((setSelectedMonth True lockedDb (2024, 1) exampleActions)\<lparr>feedback := Some (Error, AlreadyCompleted)\<rparr>, [])
   \<and> isAllocationComplete (exampleActions\<lparr>isAllocationComplete := True\<rparr>)
   \<and> snd (handleAllocateCL exampleNow None exampleDb (exampleActions\<lparr>isAllocationComplete := True\<rparr>)) = []
   \<and> (\<not> isAllocationComplete exampleActions \<and> faculty exampleDb \<noteq> [])
   \<and> (let r1 = handleAllocateCL exampleNow None exampleDb exampleActions; db1 = run exampleDb (snd r1)
      in snd r1 \<noteq> []
       \<and> snd (handleAllocateCL exampleNow None db1 (fst r1)) = []
       \<and> feedback (fst (handleAllocateCL exampleNow None db1 (fst r1))) = Some (Error, AlreadyCompleted)
       \<and> snd (handleAllocateCL exampleNow None db1 (checkStatus True db1 (fst r1))) = [])"
proof -
  have l: "monthlyAllocations lockedDb (2024, 1) = Some lockedMarker \<and> completed lockedMarker"
    by (simp add: lockedDb_def lockedMarker_def)
  have c: "isAllocationComplete (exampleActions\<lparr>isAllocationComplete := True\<rparr>)" by simp
  have h: "\<not> isAllocationComplete exampleActions \<and> faculty exampleDb \<noteq> []"
    by (simp add: exampleActions_def exampleDb_def)
  have ne: "snd (handleAllocateCL exampleNow None exampleDb exampleActions) \<noteq> []"
    using h by (simp add: handleAllocateCL_def allocate_def Let_def)
  note T = allocate_once [where db = lockedDb and m = "(2024, 1)" and st = exampleActions
      and now = exampleNow and fault = None, THEN conjunct1, rule_format, OF l]
    allocate_once [where st = "exampleActions\<lparr>isAllocationComplete := True\<rparr>" and db = exampleDb
      and now = exampleNow and fault = None, THEN conjunct2, THEN conjunct1, rule_format, OF c]
    allocate_once [where st = exampleActions and db = exampleDb and now = exampleNow
      and now' = exampleNow and fault = None, THEN conjunct2, THEN conjunct2, rule_format, OF h]
  show ?thesis
    using T l h ne unfolding Let_def by simp
qed

text \<open>
  Claim C1 is not met when the status read fails. The claim asks that a month whose marker
  says completed is never allocated again. The component decides by its flag alone, and
  \<^verbatim>\<open>checkStatus\<close> leaves the flag unset when its read fails, reporting only that the status
  could not be verified. \<^verbatim>\<open>handleAllocateCL\<close> then runs on the locked month: it
  increments the balances of the eligible employees once more and writes the marker again.
  So it is for a month that is locked when it is selected, and for a second call after a
  first one ran to completion, when the status check between the two fails.
\<close>

theorem allocate_again_after_failed_status_read:
  "monthlyAllocations lockedDb (2024, 1) = Some lockedMarker \<and> completed lockedMarker
   \<and> storedCasualLeaves lockedDb 2 = Some 0
   \<and> (let st = setSelectedMonth False lockedDb (2024, 1) exampleActions;
          r = handleAllocateCL exampleNow None lockedDb st
      in \<not> isAllocationComplete st
       \<and> feedback st = Some (Error, CouldNotVerify)
       \<and> snd r =
           [(Update [(FacultyCasualLeavesPath 2, JNum 1), (FacultyCasualLeavesPath 3, JNum 1)], True),
            (Set (MonthlyAllocationPath (2024, 1))
               (JAllocation \<lparr>completed = True, timestamp = exampleNow, updatedCount = 2\<rparr>), True)]
       \<and> feedback (fst r) = Some (Success, Allocated 2)
       \<and> storedCasualLeaves (run lockedDb (snd r)) 2 = Some 1)
   \<and> (let r1 = handleAllocateCL exampleNow None exampleDb exampleActions;
          db1 = run exampleDb (snd r1);
          st = checkStatus False db1 (fst r1);
          r2 = handleAllocateCL exampleNow None db1 st
      in isAllocationComplete (fst r1)
       \<and> monthlyAllocations db1 (2024, 1) =
           Some \<lparr>completed = True, timestamp = exampleNow, updatedCount = 2\<rparr>
       \<and> storedCasualLeaves db1 2 = Some 1
       \<and> snd r2 =
           [(Update [(FacultyCasualLeavesPath 2, JNum 2), (FacultyCasualLeavesPath 3, JNum 2)], True),
            (Set (MonthlyAllocationPath (2024, 1))
               (JAllocation \<lparr>completed = True, timestamp = exampleNow, updatedCount = 2\<rparr>), True)]
       \<and> feedback (fst r2) = Some (Success, Allocated 2)
       \<and> storedCasualLeaves (run db1 (snd r2)) 2 = Some 2)"
proof -
  have u: "allocationUpdates [1] (map toFacultyRecord [(1, exampleNode (Some 2)), (2, exampleNode (Some c)), (3, exampleNode d)]) =
      ([(FacultyCasualLeavesPath 2, JNum (c + 1)), (FacultyCasualLeavesPath 3, JNum (or0 d + 1))], 2)" for c d
    by (simp add: allocationUpdates_def toFacultyRecord_def exampleNode_def or0_def)
  have w: "facultyWithAbsences (2024, 1) (attendance exampleDb) = [1]"
    by (simp add: facultyWithAbsences_def exampleDb_def startsWith_def attNode_def)
  have a: "attendance lockedDb = attendance exampleDb"
    "faculty lockedDb = [(1, exampleNode (Some 2)), (2, exampleNode (Some 0)), (3, exampleNode None)]"
    "faculty exampleDb = [(1, exampleNode (Some 2)), (2, exampleNode (Some 0)), (3, exampleNode None)]"
    by (simp_all add: lockedDb_def exampleDb_def)
  have al: "allocate exampleNow None lockedDb (2024, 1) =
      ([(Update [(FacultyCasualLeavesPath 2, JNum 1), (FacultyCasualLeavesPath 3, JNum 1)], True),
        (Set (MonthlyAllocationPath (2024, 1))
           (JAllocation \<lparr>completed = True, timestamp = exampleNow, updatedCount = 2\<rparr>), True)], Inr 2)"
    unfolding allocate_def Let_def a w u by (simp add: or0_def)
  have ae: "allocate exampleNow None exampleDb (2024, 1) =
      ([(Update [(FacultyCasualLeavesPath 2, JNum 1), (FacultyCasualLeavesPath 3, JNum 1)], True),
        (Set (MonthlyAllocationPath (2024, 1))
           (JAllocation \<lparr>completed = True, timestamp = exampleNow, updatedCount = 2\<rparr>), True)], Inr 2)"
    unfolding allocate_def Let_def a w u by (simp add: or0_def)
  define db1 where "db1 = run exampleDb (fst (allocate exampleNow None exampleDb (2024, 1)))"
  have d1: "faculty db1 = [(1, exampleNode (Some 2)), (2, exampleNode (Some 1)), (3, exampleNode (Some 1))]"
    "attendance db1 = attendance exampleDb"
    "monthlyAllocations db1 (2024, 1) = Some \<lparr>completed = True, timestamp = exampleNow, updatedCount = 2\<rparr>"
    unfolding db1_def ae by (simp_all add: run_def exampleDb_def exampleNode_def)
  have a1: "allocate exampleNow None db1 (2024, 1) =
      ([(Update [(FacultyCasualLeavesPath 2, JNum 2), (FacultyCasualLeavesPath 3, JNum 2)], True),
        (Set (MonthlyAllocationPath (2024, 1))
           (JAllocation \<lparr>completed = True, timestamp = exampleNow, updatedCount = 2\<rparr>), True)], Inr 2)"
    unfolding allocate_def Let_def d1 w u by (simp add: or0_def)
  have locked: "monthlyAllocations lockedDb (2024, 1) = Some lockedMarker \<and> completed lockedMarker"
    "storedCasualLeaves lockedDb 2 = Some 0"
    by (simp_all add: lockedDb_def lockedMarker_def storedCasualLeaves_def exampleDb_def exampleNode_def)
  have first: "(let st = setSelectedMonth False lockedDb (2024, 1) exampleActions;
          r = handleAllocateCL exampleNow None lockedDb st
      in \<not> isAllocationComplete st
       \<and> feedback st = Some (Error, CouldNotVerify)
       \<and> snd r =
           [(Update [(FacultyCasualLeavesPath 2, JNum 1), (FacultyCasualLeavesPath 3, JNum 1)], True),
            (Set (MonthlyAllocationPath (2024, 1))
               (JAllocation \<lparr>completed = True, timestamp = exampleNow, updatedCount = 2\<rparr>), True)]
       \<and> feedback (fst r) = Some (Success, Allocated 2)
       \<and> storedCasualLeaves (run lockedDb (snd r)) 2 = Some 1)"
    by (simp add: Let_def setSelectedMonth_def checkStatus_def handleAllocateCL_def exampleActions_def al
          run_def storedCasualLeaves_def a exampleNode_def)
  have r1: "handleAllocateCL exampleNow None exampleDb exampleActions =
      (exampleActions\<lparr>isAllocationComplete := True, feedback := Some (Success, Allocated 2)\<rparr>,
       fst (allocate exampleNow None exampleDb (2024, 1)))"
    by (simp add: handleAllocateCL_def Let_def exampleActions_def ae)
  have second: "(let r1 = handleAllocateCL exampleNow None exampleDb exampleActions;
          db1 = run exampleDb (snd r1);
          st = checkStatus False db1 (fst r1);
          r2 = handleAllocateCL exampleNow None db1 st
      in isAllocationComplete (fst r1)
       \<and> monthlyAllocations db1 (2024, 1) =
           Some \<lparr>completed = True, timestamp = exampleNow, updatedCount = 2\<rparr>
       \<and> storedCasualLeaves db1 2 = Some 1
       \<and> snd r2 =
           [(Update [(FacultyCasualLeavesPath 2, JNum 2), (FacultyCasualLeavesPath 3, JNum 2)], True),
            (Set (MonthlyAllocationPath (2024, 1))
               (JAllocation \<lparr>completed = True, timestamp = exampleNow, updatedCount = 2\<rparr>), True)]
       \<and> feedback (fst r2) = Some (Success, Allocated 2)
       \<and> storedCasualLeaves (run db1 (snd r2)) 2 = Some 2)"
    unfolding Let_def r1 snd_conv fst_conv db1_def [symmetric]
    by (simp add: checkStatus_def handleAllocateCL_def Let_def exampleActions_def a1 d1
          run_def storedCasualLeaves_def exampleNode_def)
  from locked first second show ?thesis by (simp only: simp_thms)
qed

lemma hasAbsent_hasRecord: "hasAbsentRecord att m e \<Longrightarrow> hasRecordIn att m e"
  by (induction att) (auto simp: hasAbsentRecord_def hasRecordIn_def list_ex_iff)

lemma flatten_no_records:
  "\<not> hasRecordIn att m e \<Longrightarrow>
   filter (\<lambda>r. startsWith (att_date r) m \<and> att_empId r = e) (flattenAttendance att) = []"
proof (induction att)
  case Nil
  then show ?case by (simp add: flattenAttendance_def)
next
  case (Cons a att)
  obtain e' records where a: "a = (e', records)" by (cases a)
  from Cons.prems have rest: "\<not> hasRecordIn att m e"
    and here: "e' = e \<Longrightarrow> \<forall>(d, r) \<in> set records. \<not> startsWith d m"
    by (auto simp: hasRecordIn_def a list_ex_iff)
  have tail: "filter (\<lambda>r. startsWith (att_date r) m \<and> att_empId r = e) (flattenAttendance att) = []"
    using rest by (rule Cons.IH)
  have head: "filter (\<lambda>r. startsWith (att_date r) m \<and> att_empId r = e)
                (map (\<lambda>(d, r). \<lparr> att_empId = e', att_date = d, att_inTime = an_inTime r,
                                    att_status = an_status r,
                                    att_leaveApplicationId = an_leaveApplicationId r \<rparr>) records) = []"
    using here by (auto simp: filter_empty_conv)
  have "flattenAttendance (a # att) =
          map (\<lambda>(d, r). \<lparr> att_empId = e', att_date = d, att_inTime = an_inTime r,
                                    att_status = an_status r,
                                    att_leaveApplicationId = an_leaveApplicationId r \<rparr>) records
          @ flattenAttendance att"
    by (simp add: flattenAttendance_def a)
  then show ?case using head tail by simp
qed

text \<open>
  Claim C10. An employee with no attendance record at all in the month is eligible: a run to
  completion increments the balance by exactly 1. For the same month and the same attendance
  data, \<^verbatim>\<open>calculateSummary\<close> gives that employee 0 present days, and counts every working
  day as absent: casual leaves used and unpaid leave add up to the working days.
\<close>

theorem no_records_eligible_but_absent:
  assumes "\<not> isAllocationComplete st" and "distinct (map fst (faculty db))"
    and "(e, node) \<in> set (faculty db)"
    and "\<not> hasRecordIn (attendance db) (ma_selectedMonth st) e"
    and "rawAttendance s = flattenAttendance (attendance db)"
    and "selectedMonth s = ma_selectedMonth st"
    and "0 < monthlyWorkingDays s" and "i < length (facultyList s)"
    and "fac_empId (facultyList s ! i) = e"
  shows "let r = handleAllocateCL now None db st; db' = run db (snd r);
             row = summaryData (calculateSummary s) ! i
         in map_of (faculty db') e =
              Some (node\<lparr>node_casualLeaves := Some (or0 (node_casualLeaves node) + 1)\<rparr>)
          \<and> ms_empId row = e
          \<and> presentDays row = 0
          \<and> casualLeavesUsed row + unpaidLeave row = actualWorkingDays s"
proof -
  have na: "\<not> hasAbsentRecord (attendance db) (ma_selectedMonth st) e"
    using assms(4) hasAbsent_hasRecord by blast
  have alloc: "map_of (faculty (run db (snd (handleAllocateCL now None db st)))) e =
              Some (node\<lparr>node_casualLeaves := Some (or0 (node_casualLeaves node) + 1)\<rparr>)"
    using handleAllocateCL_faculty [OF assms(1-3), of now] na by (simp add: Let_def)
  have recs: "recordsInMonth s e = []"
    unfolding recordsInMonth_def assms(5) assms(6) by (rule flatten_no_records [OF assms(4)])
  note nth = calculateSummary_nth [OF assms(7,8)]
  let ?b = "attendanceByEmp (filter (\<lambda>r. startsWith (att_date r) (selectedMonth s)) (rawAttendance s))"
  have rr: "rowRecords ?b (facultyList s ! i) = []"
    unfolding rowRecords_inMonth assms(9) by (rule recs)
  have p: "presentDays (summaryData (calculateSummary s) ! i) = 0"
    unfolding nth row_presentDays rr by simp
  have w: "0 \<le> actualWorkingDays s" by (simp add: actualWorkingDays_def)
  have u: "unpaidLeave (summaryData (calculateSummary s) ! i) =
             actualWorkingDays s - casualLeavesUsed (summaryData (calculateSummary s) ! i)"
    using row_unpaid [of "actualWorkingDays s" "permissionLimit s" ?b "facultyList s ! i"] p w
    unfolding nth by simp
  have i: "ms_empId (summaryData (calculateSummary s) ! i) = e"
    unfolding nth row_empId by (rule assms(9))
  show ?thesis
    unfolding Let_def using alloc i p u by simp
qed

text \<open>Employee 3 of the example: balance from none to 1, and 31 absent days in January.\<close>

theorem no_records_eligible_but_absent_witness:
  "\<not> isAllocationComplete exampleActions \<and> distinct (map fst (faculty exampleDb))
   \<and> (3, exampleNode None) \<in> set (faculty exampleDb)
   \<and> \<not> hasRecordIn (attendance exampleDb) (ma_selectedMonth exampleActions) 3
   \<and> rawAttendance exampleSummary = flattenAttendance (attendance exampleDb)
   \<and> selectedMonth exampleSummary = ma_selectedMonth exampleActions
   \<and> 0 < monthlyWorkingDays exampleSummary \<and> 2 < length (facultyList exampleSummary)
   \<and> fac_empId (facultyList exampleSummary ! 2) = 3
   \<and> storedCasualLeaves exampleDb 3 = None
   \<and> storedCasualLeaves (run exampleDb (snd (handleAllocateCL exampleNow None exampleDb exampleActions))) 3 = Some 1
   \<and> presentDays (summaryData (calculateSummary exampleSummary) ! 2) = 0
   \<and> casualLeavesUsed (summaryData (calculateSummary exampleSummary) ! 2)
       + unpaidLeave (summaryData (calculateSummary exampleSummary) ! 2) = 31"
proof -
  have h1: "\<not> isAllocationComplete exampleActions" by (simp add: exampleActions_def)
  have h2: "distinct (map fst (faculty exampleDb))" by (simp add: exampleDb_def)
  have h3: "(3, exampleNode None) \<in> set (faculty exampleDb)" by (simp add: exampleDb_def)
  have h4: "\<not> hasRecordIn (attendance exampleDb) (ma_selectedMonth exampleActions) 3"
    by (simp add: hasRecordIn_def exampleDb_def)
  have h5: "rawAttendance exampleSummary = flattenAttendance (attendance exampleDb)"
    by (simp add: exampleSummary_def)
  have h6: "selectedMonth exampleSummary = ma_selectedMonth exampleActions"
    by (simp add: exampleSummary_def exampleActions_def)
  have h7: "0 < monthlyWorkingDays exampleSummary" by (simp add: exampleSummary_def)
  have h8: "2 < length (facultyList exampleSummary)" by (simp add: exampleSummary_def exampleDb_def)
  have h9: "fac_empId (facultyList exampleSummary ! 2) = 3"
    by (simp add: exampleSummary_def exampleDb_def toFacultyRecord_def)
  have w: "actualWorkingDays exampleSummary = 31"
    by (simp add: actualWorkingDays_def holidaysInMonth_def exampleSummary_def)
  have b: "storedCasualLeaves exampleDb 3 = None"
    by (simp add: storedCasualLeaves_def exampleDb_def exampleNode_def)
  from no_records_eligible_but_absent [OF h1 h2 h3 h4 h5 h6 h7 h8 h9, of exampleNow]
  show ?thesis
    unfolding Let_def w using h1 h2 h3 h4 h5 h6 h7 h8 h9 b
    by (simp add: storedCasualLeaves_def exampleNode_def or0_def)
qed

section \<open>The leave workflow\<close>

subsection \<open>Calendar dates\<close>

lemma daysInMonth_bounds: "28 \<le> daysInMonth y m" "daysInMonth y m \<le> 31"
  by (simp_all add: daysInMonth_def)

lemma calendarDate_validDay: "calendarDate d \<Longrightarrow> validDay d"
  by (auto simp: calendarDate_def validDay_def)

lemma dateLe_refl: "dateLe d d"
  by (cases d) (simp add: dateLe_def)

lemma dateLe_trans: "dateLe a b \<Longrightarrow> dateLe b c \<Longrightarrow> dateLe a c"
  by (cases a, cases b, cases c) (auto simp: dateLe_def)

lemma dateLe_antisym: "dateLe a b \<Longrightarrow> dateLe b a \<Longrightarrow> a = b"
  by (cases a, cases b) (auto simp: dateLe_def)

lemma dateLe_year: "dateLe a b \<Longrightarrow> fst a \<le> fst b"
  by (cases a, cases b) (auto simp: dateLe_def)

lemma next_valid: "validDay c \<Longrightarrow> validDay (setUTCDateNext c)"
  using daysInMonth_bounds
  by (cases c) (auto simp: validDay_def setUTCDateNext_def intro: order_trans [of 1 28])

lemma next_greater: "dateLe c (setUTCDateNext c)" "setUTCDateNext c \<noteq> c"
  by (cases c; auto simp: dateLe_def setUTCDateNext_def)+

lemma next_successor:
  assumes "validDay c" and "validDay x" and "dateLe c x" and "c \<noteq> x"
  shows "dateLe (setUTCDateNext c) x"
proof -
  obtain y m d where c: "c = (y, m, d)" by (cases c)
  obtain y' m' d' where x: "x = (y', m', d')" by (cases x)
  from assms show ?thesis
    unfolding c x validDay_def dateLe_def setUTCDateNext_def
    by (auto split: if_splits)
qed

lemma next_not_before:
  assumes "dateLe (setUTCDateNext c) x"
  shows "dateLe c x" and "c \<noteq> x"
  using assms next_greater [of c] dateLe_trans dateLe_antisym by blast+

lemma Date_UTC_calendar:
  "calendarDate dt \<Longrightarrow> (case dt of (y, m, d) \<Rightarrow> Date_UTC y (m - 1) d) = dt"
  by (cases dt) (auto simp: calendarDate_def Date_UTC_def)

lemma between_calendar:
  assumes "calendarDate a" and "calendarDate b" and "dateLe a x" and "dateLe x b" and "validDay x"
  shows "calendarDate x"
  using assms dateLe_year [OF assms(3)] dateLe_year [OF assms(4)]
  by (cases a, cases b, cases x) (auto simp: calendarDate_def validDay_def)

subsection \<open>The calendar dates and the time values\<close>

text \<open>
  Stepping to the following calendar date adds exactly one day to the day number, and the
  order of calendar dates is the order of their day numbers: \<^verbatim>\<open>setUTCDate(getUTCDate() + 1)\<close>
  and \<^verbatim>\<open><=\<close> on the time values are what the representation computes.
\<close>

lemma div_step:
  fixes a n :: int
  assumes "0 < n"
  shows "(a + 1) div n = (if (a + 1) mod n = 0 then a div n + 1 else a div n)"
proof (cases "(a + 1) mod n = 0")
  case True
  then obtain k where k: "a + 1 = n * k" by (metis mod_eq_0_iff_dvd dvdE)
  then have a: "a = n * (k - 1) + (n - 1)" by (simp add: algebra_simps)
  have "a div n = k - 1"
    unfolding a using assms by (simp add: div_pos_pos_trivial)
  moreover have "(a + 1) div n = k" unfolding k using assms by simp
  ultimately show ?thesis using True by simp
next
  case False
  have r: "0 \<le> a mod n" "a mod n < n" using assms by simp_all
  have "a mod n \<noteq> n - 1"
  proof
    assume "a mod n = n - 1"
    then have "(a + 1) mod n = (n - 1 + 1) mod n" by (metis mod_add_left_eq)
    then show False using False by simp
  qed
  with r have lt: "a mod n + 1 < n" by simp
  have "a + 1 = n * (a div n) + (a mod n + 1)" by simp
  then have "(a + 1) div n = (n * (a div n) + (a mod n + 1)) div n" by simp
  also have "\<dots> = a div n + (a mod n + 1) div n"
    using assms by (subst div_mult_self4) simp_all
  also have "(a mod n + 1) div n = 0"
    using lt r by (simp add: div_pos_pos_trivial)
  finally show ?thesis using False by simp
qed

lemma mod_shift:
  fixes y n k :: int
  shows "(y - n * k) mod n = y mod n"
proof -
  have "y - n * k = y + n * (- k)" by simp
  then show ?thesis by (simp only: mod_mult_self2)
qed

lemma mod4_shift: "((y::int) - 1968) mod 4 = 0 \<longleftrightarrow> y mod 4 = 0"
  using mod_shift [of y 4 492] by simp

lemma mod100_shift: "((y::int) - 1900) mod 100 = 0 \<longleftrightarrow> y mod 100 = 0"
  using mod_shift [of y 100 19] by simp

lemma mod400_shift: "((y::int) - 1600) mod 400 = 0 \<longleftrightarrow> y mod 400 = 0"
  using mod_shift [of y 400 4] by simp

lemma mod100_mod4: "(y::int) mod 100 = 0 \<Longrightarrow> y mod 4 = 0"
proof -
  assume "y mod 100 = 0"
  then have "100 dvd y" by (simp add: mod_eq_0_iff_dvd)
  moreover have "(4::int) dvd 100" by simp
  ultimately have "4 dvd y" by (rule dvd_trans [rotated])
  then show ?thesis by (simp add: mod_eq_0_iff_dvd)
qed

lemma mod400_mod100: "(y::int) mod 400 = 0 \<Longrightarrow> y mod 100 = 0"
proof -
  assume "y mod 400 = 0"
  then have "400 dvd y" by (simp add: mod_eq_0_iff_dvd)
  moreover have "(100::int) dvd 400" by simp
  ultimately have "100 dvd y" by (rule dvd_trans [rotated])
  then show ?thesis by (simp add: mod_eq_0_iff_dvd)
qed

lemma DayFromYear_Suc:
  "DayFromYear (y + 1) = DayFromYear y + (if isLeapYear y then 366 else 365)"
proof -
  define A where "A = (y - 1969) div 4"
  define B where "B = (y - 1901) div 100"
  define C where "C = (y - 1601) div 400"
  have a: "(y - 1968) div 4 = A + (if y mod 4 = 0 then 1 else 0)"
    using div_step [of 4 "y - 1969"] mod4_shift [of y] by (simp add: A_def)
  have b: "(y - 1900) div 100 = B + (if y mod 100 = 0 then 1 else 0)"
    using div_step [of 100 "y - 1901"] mod100_shift [of y] by (simp add: B_def)
  have c: "(y - 1600) div 400 = C + (if y mod 400 = 0 then 1 else 0)"
    using div_step [of 400 "y - 1601"] mod400_shift [of y] by (simp add: C_def)
  have l: "DayFromYear (y + 1) = 365 * (y - 1969) + (y - 1968) div 4 - (y - 1900) div 100 + (y - 1600) div 400"
    by (simp add: DayFromYear_def)
  have r: "DayFromYear y = 365 * (y - 1970) + A - B + C"
    by (simp add: DayFromYear_def A_def B_def C_def)
  show ?thesis
  proof (cases "y mod 4 = 0")
    case False
    then have "y mod 100 \<noteq> 0" "y mod 400 \<noteq> 0"
      using mod100_mod4 [of y] mod400_mod100 [of y] by auto
    with False show ?thesis unfolding l r a b c isLeapYear_def by simp
  next
    case m4: True
    show ?thesis
    proof (cases "y mod 100 = 0")
      case False
      then have "y mod 400 \<noteq> 0" using mod400_mod100 [of y] by auto
      with m4 False show ?thesis unfolding l r a b c isLeapYear_def by simp
    next
      case m100: True
      show ?thesis
      proof (cases "y mod 400 = 0")
        case False
        with m4 m100 show ?thesis unfolding l r a b c isLeapYear_def by simp
      next
        case True
        with m4 m100 show ?thesis unfolding l r a b c isLeapYear_def by simp
      qed
    qed
  qed
qed

lemma daysBeforeMonth_Suc:
  "1 \<le> m \<Longrightarrow> m < 12 \<Longrightarrow> daysBeforeMonth y (m + 1) = daysBeforeMonth y m + daysInMonth y m"
proof -
  assume "1 \<le> m" "m < 12"
  then have "m = 1 \<or> m = 2 \<or> m = 3 \<or> m = 4 \<or> m = 5 \<or> m = 6 \<or> m = 7 \<or> m = 8
    \<or> m = 9 \<or> m = 10 \<or> m = 11" by arith
  then show ?thesis
    by (elim disjE) (simp_all add: daysBeforeMonth_def daysInMonth_def)
qed

lemma daysBeforeMonth_12: "daysBeforeMonth y 12 + 31 = (if isLeapYear y then 366 else 365)"
  by (simp add: daysBeforeMonth_def)

lemma MakeDay_next: "validDay c \<Longrightarrow> MakeDay (setUTCDateNext c) = MakeDay c + 1"
proof -
  assume v: "validDay c"
  obtain y m d where c: "c = (y, m, d)" by (cases c)
  from v have b: "1 \<le> m" "m \<le> 12" "1 \<le> d" "d \<le> daysInMonth y m"
    by (simp_all add: c validDay_def)
  show ?thesis
  proof (cases "d < daysInMonth y m")
    case True
    then show ?thesis by (simp add: c setUTCDateNext_def MakeDay_def)
  next
    case False
    with b have d: "d = daysInMonth y m" by simp
    show ?thesis
    proof (cases "m < 12")
      case True
      then show ?thesis
        using False daysBeforeMonth_Suc [OF b(1) True, of y]
        by (simp add: c setUTCDateNext_def MakeDay_def d)
    next
      case False
      with b have m: "m = 12" by simp
      have "daysInMonth y 12 = 31" by (simp add: daysInMonth_def)
      then show ?thesis
        using DayFromYear_Suc [of y] daysBeforeMonth_12 [of y]
        by (simp add: c m d setUTCDateNext_def MakeDay_def daysBeforeMonth_def)
    qed
  qed
qed

lemma DayFromYear_le: "DayFromYear y \<le> DayFromYear (y + int k)"
proof (induction k)
  case 0
  then show ?case by simp
next
  case (Suc k)
  have "y + int (Suc k) = y + int k + 1" by simp
  then have "DayFromYear (y + int (Suc k)) = DayFromYear (y + int k + 1)" by (rule arg_cong)
  also have "\<dots> \<ge> DayFromYear (y + int k)" unfolding DayFromYear_Suc by simp
  finally show ?case using Suc by simp
qed

lemma DayFromYear_mono:
  assumes "y < y'"
  shows "DayFromYear y + (if isLeapYear y then 366 else 365) \<le> DayFromYear y'"
proof -
  have "y' = y + 1 + int (nat (y' - y - 1))" using assms by simp
  then have "DayFromYear (y + 1) \<le> DayFromYear y'"
    using DayFromYear_le [of "y + 1" "nat (y' - y - 1)"] by simp
  then show ?thesis unfolding DayFromYear_Suc .
qed

lemma month_cases:
  "1 \<le> m \<Longrightarrow> m \<le> 12 \<Longrightarrow>
   m = 1 \<or> m = 2 \<or> m = 3 \<or> m = 4 \<or> m = 5 \<or> m = 6 \<or> m = 7 \<or> m = 8 \<or> m = 9 \<or> m = 10
   \<or> m = 11 \<or> m = (12::int)"
  by arith

lemma dayInYear_bounds:
  assumes "validDay (y, m, d)"
  shows "0 \<le> daysBeforeMonth y m + d - 1"
    and "daysBeforeMonth y m + d - 1 < (if isLeapYear y then 366 else 365)"
proof -
  from assms have b: "1 \<le> m" "m \<le> 12" "1 \<le> d" "d \<le> daysInMonth y m"
    by (simp_all add: validDay_def)
  from month_cases [OF b(1,2)] b(3) show "0 \<le> daysBeforeMonth y m + d - 1"
    by (elim disjE) (simp_all add: daysBeforeMonth_def)
  from month_cases [OF b(1,2)] b(4)
  show "daysBeforeMonth y m + d - 1 < (if isLeapYear y then 366 else 365)"
    by (elim disjE) (auto simp: daysBeforeMonth_def daysInMonth_def split: if_splits)
qed

lemma daysBeforeMonth_mono:
  assumes "1 \<le> m" and "m < m'" and "m' \<le> 12"
  shows "daysBeforeMonth y m + daysInMonth y m \<le> daysBeforeMonth y m'"
proof -
  have "daysBeforeMonth y m + daysInMonth y m \<le> daysBeforeMonth y (m + 1 + int k)"
    if "m + 1 + int k \<le> 12" for k
    using that
  proof (induction k)
    case 0
    then show ?case using daysBeforeMonth_Suc [OF assms(1), of y] by simp
  next
    case (Suc k)
    have "m + 1 + int (Suc k) = (m + 1 + int k) + 1" by simp
    moreover have "daysBeforeMonth y ((m + 1 + int k) + 1) =
        daysBeforeMonth y (m + 1 + int k) + daysInMonth y (m + 1 + int k)"
      using Suc.prems assms(1) by (intro daysBeforeMonth_Suc) simp_all
    moreover have "0 \<le> daysInMonth y (m + 1 + int k)"
      using daysInMonth_bounds(1) [of y "m + 1 + int k"] by simp
    ultimately show ?case using Suc by simp
  qed
  from this [of "nat (m' - m - 1)"] assms show ?thesis by simp
qed

lemma MakeDay_strict:
  assumes "validDay a" and "validDay b" and "dateLe a b" and "a \<noteq> b"
  shows "MakeDay a < MakeDay b"
proof -
  obtain y m d where a: "a = (y, m, d)" by (cases a)
  obtain y' m' d' where b: "b = (y', m', d')" by (cases b)
  from assms(1) have va: "1 \<le> m" "m \<le> 12" "1 \<le> d" "d \<le> daysInMonth y m"
    by (simp_all add: a validDay_def)
  from assms(2) have vb: "1 \<le> m'" "m' \<le> 12" "1 \<le> d'" "d' \<le> daysInMonth y' m'"
    by (simp_all add: b validDay_def)
  from assms(3,4) consider (year) "y < y'" | (month) "y = y'" "m < m'" | (day) "y = y'" "m = m'" "d < d'"
    by (auto simp: a b dateLe_def)
  then show ?thesis
  proof cases
    case year
    have "MakeDay a < DayFromYear y + (if isLeapYear y then 366 else 365)"
      using dayInYear_bounds(2) [OF assms(1) [unfolded a]] by (simp add: a MakeDay_def)
    also have "\<dots> \<le> DayFromYear y'" by (rule DayFromYear_mono [OF year])
    also have "\<dots> \<le> MakeDay b"
      using dayInYear_bounds(1) [OF assms(2) [unfolded b]] by (simp add: b MakeDay_def)
    finally show ?thesis .
  next
    case month
    have "daysBeforeMonth y m + d \<le> daysBeforeMonth y m + daysInMonth y m" using va(4) by simp
    also have "\<dots> \<le> daysBeforeMonth y m'" by (rule daysBeforeMonth_mono [OF va(1) month(2) vb(2)])
    finally show ?thesis using vb(3) month(1) by (simp add: a b MakeDay_def)
  next
    case day
    then show ?thesis by (simp add: a b MakeDay_def)
  qed
qed

lemma dateLe_total: "dateLe a b \<or> dateLe b a"
  by (cases a, cases b) (auto simp: dateLe_def)

lemma MakeDay_le_iff:
  assumes "validDay a" and "validDay b"
  shows "dateLe a b \<longleftrightarrow> MakeDay a \<le> MakeDay b"
proof
  assume "dateLe a b"
  then show "MakeDay a \<le> MakeDay b"
    using MakeDay_strict [OF assms] by (cases "a = b") auto
next
  assume le: "MakeDay a \<le> MakeDay b"
  show "dateLe a b"
  proof (rule ccontr)
    assume n: "\<not> dateLe a b"
    then have "dateLe b a" "b \<noteq> a" using dateLe_total [of a b] dateLe_refl [of a] by auto
    from MakeDay_strict [OF assms(2,1) this] le show False by simp
  qed
qed

lemma MakeDay_epoch: "MakeDay (1970, 1, 1) = 0" "MakeDay (2024, 2, 29) = 19782"
  by (simp_all add: MakeDay_def DayFromYear_def daysBeforeMonth_def isLeapYear_def)

subsection \<open>The updates of \<^verbatim>\<open>rejectLeave\<close>\<close>

lemma rejectLoop_map_of:
  "validDay c \<Longrightarrow>
   map_of (rejectLoop e c l u) k =
     (if \<exists>x. k = AttendanceRecordPath e x \<and> validDay x \<and> dateLe c x \<and> dateLe x l
      then Some JNull else map_of u k)"
proof (induction e c l u rule: rejectLoop.induct)
  case (1 e c l u)
  define P where "P \<longleftrightarrow> (\<exists>x. k = AttendanceRecordPath e x \<and> validDay x \<and> dateLe c x \<and> dateLe x l)"
  define Q where "Q \<longleftrightarrow>
    (\<exists>x. k = AttendanceRecordPath e x \<and> validDay x \<and> dateLe (setUTCDateNext c) x \<and> dateLe x l)"
  show ?case
  proof (cases "dateLe c l")
    case True
    have IH: "map_of (rejectLoop e (setUTCDateNext c) l (AList.update (AttendanceRecordPath e c) JNull u)) k =
        (if Q then Some JNull else map_of (AList.update (AttendanceRecordPath e c) JNull u) k)"
      unfolding Q_def using "1.IH" [OF True next_valid [OF "1.prems"]] .
    have range: "P \<longleftrightarrow> k = AttendanceRecordPath e c \<or> Q"
    proof
      assume P
      then obtain x where x: "k = AttendanceRecordPath e x" "validDay x" "dateLe c x" "dateLe x l"
        unfolding P_def by blast
      show "k = AttendanceRecordPath e c \<or> Q"
      proof (cases "x = c")
        case True
        with x show ?thesis by simp
      next
        case False
        then have "dateLe (setUTCDateNext c) x"
          using next_successor [OF "1.prems" x(2) x(3)] by blast
        with x show ?thesis unfolding Q_def by blast
      qed
    next
      assume "k = AttendanceRecordPath e c \<or> Q"
      then show P
      proof
        assume "k = AttendanceRecordPath e c"
        with True "1.prems" dateLe_refl show P unfolding P_def by blast
      next
        assume Q
        then obtain x where x: "k = AttendanceRecordPath e x" "validDay x"
          "dateLe (setUTCDateNext c) x" "dateLe x l" unfolding Q_def by blast
        from next_not_before(1) [OF x(3)] x show P unfolding P_def by blast
      qed
    qed
    have unfold: "rejectLoop e c l u =
        rejectLoop e (setUTCDateNext c) l (AList.update (AttendanceRecordPath e c) JNull u)"
      using True by (subst rejectLoop.simps) simp
    have "map_of (rejectLoop e c l u) k = (if P then Some JNull else map_of u k)"
      unfolding unfold IH range by (simp add: update_conv')
    then show ?thesis unfolding P_def .
  next
    case False
    have none: "\<not> P"
      unfolding P_def using False dateLe_trans by blast
    have unfold: "rejectLoop e c l u = u"
      using False by (subst rejectLoop.simps) simp
    have "map_of (rejectLoop e c l u) k = (if P then Some JNull else map_of u k)"
      unfolding unfold using none by simp
    then show ?thesis unfolding P_def .
  qed
qed

lemma rejectLoop_distinct:
  "distinct (map fst u) \<Longrightarrow> distinct (map fst (rejectLoop e c l u))"
proof (induction e c l u rule: rejectLoop.induct)
  case (1 e c l u)
  show ?case
  proof (cases "dateLe c l")
    case True
    have "distinct (map fst (AList.update (AttendanceRecordPath e c) JNull u))"
      using "1.prems" by (rule distinct_update)
    from "1.IH" [OF True this] True show ?thesis
      by (subst rejectLoop.simps) simp
  next
    case False
    with "1.prems" show ?thesis by (subst rejectLoop.simps) simp
  qed
qed

lemma rejectLoop_inverted: "\<not> dateLe c l \<Longrightarrow> rejectLoop e c l u = u"
  by (subst rejectLoop.simps) simp

lemma attendanceAt_remove:
  "attendanceAt (writeKey db (AttendanceRecordPath e d, JNull)) e2 d2 =
     (if e2 = e \<and> d2 = d then None else attendanceAt db e2 d2)"
proof (cases "map_of (attendance db) e")
  case None
  then show ?thesis by (auto simp: attendanceAt_def removeAttendance_def)
next
  case (Some records)
  show ?thesis
  proof (cases "AList.delete d records = []")
    case True
    then have "map_of (AList.delete d records) d2 = None" by simp
    then have other: "d2 \<noteq> d \<Longrightarrow> map_of records d2 = None" by (simp add: delete_conv')
    show ?thesis
      using Some True other
      by (auto simp: attendanceAt_def removeAttendance_def delete_conv')
  next
    case False
    show ?thesis
      using Some False
      by (auto simp: attendanceAt_def removeAttendance_def delete_conv' update_conv')
  qed
qed

lemma writeKey_status:
  "faculty (writeKey db (LeaveStatusPath j, JStatus s)) = faculty db"
  "monthlyAllocations (writeKey db (LeaveStatusPath j, JStatus s)) = monthlyAllocations db"
  "attendanceAt (writeKey db (LeaveStatusPath j, JStatus s)) e d = attendanceAt db e d"
  "storedLeaveStatus (writeKey db (LeaveStatusPath j, JStatus s)) i =
     (if j = i then Some s else storedLeaveStatus db i)"
  by (simp_all add: attendanceAt_def storedLeaveStatus_def)

lemma writeKey_remove:
  "faculty (writeKey db (AttendanceRecordPath e' d', JNull)) = faculty db"
  "monthlyAllocations (writeKey db (AttendanceRecordPath e' d', JNull)) = monthlyAllocations db"
  "storedLeaveStatus (writeKey db (AttendanceRecordPath e' d', JNull)) i = storedLeaveStatus db i"
  by (simp_all add: storedLeaveStatus_def)

lemma rejectWrite_cases:
  assumes "rejectWrite w"
  obtains (status) j s where "w = (LeaveStatusPath j, JStatus s)"
    | (remove) e d where "w = (AttendanceRecordPath e d, JNull)"
  using assms by (cases w) (auto simp: rejectWrite_def split: path.splits json.splits)

lemma foldl_reject:
  assumes "\<forall>w \<in> set ups. rejectWrite w"
  shows "faculty (foldl writeKey db ups) = faculty db"
    and "monthlyAllocations (foldl writeKey db ups) = monthlyAllocations db"
    and "attendanceAt (foldl writeKey db ups) e d =
           (if (AttendanceRecordPath e d, JNull) \<in> set ups then None else attendanceAt db e d)"
  using assms
proof (induction ups arbitrary: db)
  case Nil
  {
    case 1 show ?case by simp
  next
    case 2 show ?case by simp
  next
    case 3 show ?case by simp
  }
next
  case (Cons w ups)
  {
    case 1
    then have "rejectWrite w" and rest: "\<forall>w \<in> set ups. rejectWrite w" by simp_all
    then show ?case
      by (cases w rule: rejectWrite_cases) (simp_all add: Cons.IH(1) writeKey_status writeKey_remove)
  next
    case 2
    then have "rejectWrite w" and rest: "\<forall>w \<in> set ups. rejectWrite w" by simp_all
    then show ?case
      by (cases w rule: rejectWrite_cases) (simp_all add: Cons.IH(2) writeKey_status writeKey_remove)
  next
    case 3
    then have "rejectWrite w" and rest: "\<forall>w \<in> set ups. rejectWrite w" by simp_all
    then show ?case
      by (cases w rule: rejectWrite_cases)
         (auto simp: Cons.IH(3) writeKey_status attendanceAt_remove simp del: writeKey.simps)
  }
qed

lemma foldl_reject_status:
  assumes "\<forall>w \<in> set ups. rejectWrite w" and "distinct (map fst ups)"
  shows "storedLeaveStatus (foldl writeKey db ups) i =
           (case map_of ups (LeaveStatusPath i) of
              Some (JStatus s) \<Rightarrow> Some s
            | _ \<Rightarrow> storedLeaveStatus db i)"
  using assms
proof (induction ups arbitrary: db)
  case Nil
  then show ?case by simp
next
  case (Cons w ups)
  then have w: "rejectWrite w" and rest: "\<forall>w \<in> set ups. rejectWrite w"
    and d: "distinct (map fst ups)" and fresh: "fst w \<notin> fst ` set ups" by simp_all
  note IH = Cons.IH [OF rest d]
  from w show ?case
  proof (cases w rule: rejectWrite_cases)
    case (status j s)
    have none: "map_of ups (LeaveStatusPath j) = None"
      using fresh by (simp add: status map_of_eq_None_iff)
    show ?thesis
      using none by (auto simp: status IH writeKey_status simp del: writeKey.simps split: option.splits json.splits)
  next
    case (remove e d)
    show ?thesis
      by (simp add: remove IH writeKey_remove del: writeKey.simps split: option.splits json.splits)
  qed
qed

lemma rejectLeave_found:
  assumes "find (\<lambda>app. leave_id app = leaveId) apps = Some leave"
    and "calendarDate (leave_startDate leave)" and "calendarDate (leave_endDate leave)"
  shows "rejectLeave True leaveId apps =
           (Inr (), markRejected leaveId apps,
            [(Update (rejectLoop (leave_empId leave) (leave_startDate leave) (leave_endDate leave)
                        [(LeaveStatusPath leaveId, JStatus Rejected)]), True)])"
    and "rejectLeave False leaveId apps =
           (Inl FailedToReject, apps,
            [(Update (rejectLoop (leave_empId leave) (leave_startDate leave) (leave_endDate leave)
                        [(LeaveStatusPath leaveId, JStatus Rejected)]), False)])"
  using assms(1) Date_UTC_calendar [OF assms(2)] Date_UTC_calendar [OF assms(3)]
  by (simp_all add: rejectLeave_def Let_def markRejected_def)

lemma rejectUpdates_props:
  fixes leave :: LeaveApplicationRecord and leaveId :: string
  defines "U \<equiv> rejectLoop (leave_empId leave) (leave_startDate leave) (leave_endDate leave)
                  [(LeaveStatusPath leaveId, JStatus Rejected)]"
  assumes "calendarDate (leave_startDate leave)" and "calendarDate (leave_endDate leave)"
  shows "distinct (map fst U)"
    and "set U = insert (LeaveStatusPath leaveId, JStatus Rejected)
                   {(AttendanceRecordPath (leave_empId leave) d, JNull) | d. inRange leave d}"
    and "\<forall>w \<in> set U. rejectWrite w"
    and "map_of U (LeaveStatusPath leaveId) = Some (JStatus Rejected)"
proof -
  have v: "validDay (leave_startDate leave)" using assms(2) by (rule calendarDate_validDay)
  show d: "distinct (map fst U)"
    unfolding U_def by (rule rejectLoop_distinct) simp
  have r: "(validDay x \<and> dateLe (leave_startDate leave) x \<and> dateLe x (leave_endDate leave)) \<longleftrightarrow> inRange leave x" for x
    unfolding inRange_def using between_calendar [OF assms(2,3)] calendarDate_validDay by blast
  have m: "map_of U k =
     (if \<exists>x. k = AttendanceRecordPath (leave_empId leave) x \<and> inRange leave x
      then Some JNull else map_of [(LeaveStatusPath leaveId, JStatus Rejected)] k)" for k
    unfolding U_def rejectLoop_map_of [OF v] using r by (simp cong: conj_cong)
  have mem: "(k, x) \<in> set U \<longleftrightarrow> map_of U k = Some x" for k x
    using d by simp
  show s: "set U = insert (LeaveStatusPath leaveId, JStatus Rejected)
                   {(AttendanceRecordPath (leave_empId leave) d, JNull) | d. inRange leave d}"
  proof (rule set_eqI)
    fix w :: "path \<times> json"
    obtain k x where w: "w = (k, x)" by (cases w)
    show "w \<in> set U \<longleftrightarrow> w \<in> insert (LeaveStatusPath leaveId, JStatus Rejected)
                   {(AttendanceRecordPath (leave_empId leave) d, JNull) | d. inRange leave d}"
      unfolding w mem m by (auto split: if_splits)
  qed
  show "\<forall>w \<in> set U. rejectWrite w"
    unfolding s by (auto simp: rejectWrite_def)
  show "map_of U (LeaveStatusPath leaveId) = Some (JStatus Rejected)"
    unfolding m by simp
qed

text \<open>
  Claim C3. For a leave application of the in-memory list whose dates are calendar dates with
  start not after end, \<^verbatim>\<open>rejectLeave\<close> with the store accepting the write returns normally
  and issues exactly one store call, a multi-key update. Its keys are the status of the leave,
  set to Rejected, and, set to null, the attendance record of the employee at every calendar
  date from the start date to the end date inclusive, and nothing else: the stepping by
  \<^verbatim>\<open>setUTCDate\<close> meets each date of the calendar once, across month and year ends. After the
  update the stored status is Rejected, the in-memory status is Rejected, and no attendance
  record of the employee is left at any date of the range.
\<close>

theorem reject_clears_range:
  assumes "find (\<lambda>app. leave_id app = leaveId) apps = Some leave"
    and "calendarDate (leave_startDate leave)" and "calendarDate (leave_endDate leave)"
    and "dateLe (leave_startDate leave) (leave_endDate leave)"
  shows "\<exists>updates.
           rejectLeave True leaveId apps = (Inr (), markRejected leaveId apps, [(Update updates, True)])
         \<and> find (\<lambda>app. leave_id app = leaveId) (markRejected leaveId apps) =
             Some (leave\<lparr>leave_status := Rejected\<rparr>)
         \<and> set updates = insert (LeaveStatusPath leaveId, JStatus Rejected)
                           {(AttendanceRecordPath (leave_empId leave) d, JNull) | d. inRange leave d}
         \<and> distinct (map fst updates)
         \<and> storedLeaveStatus (run db [(Update updates, True)]) leaveId = Some Rejected
         \<and> (\<forall>d. inRange leave d \<longrightarrow>
               attendanceAt (run db [(Update updates, True)]) (leave_empId leave) d = None)
         \<and> inRange leave (leave_startDate leave) \<and> inRange leave (leave_endDate leave)"
proof -
  let ?U = "rejectLoop (leave_empId leave) (leave_startDate leave) (leave_endDate leave)
              [(LeaveStatusPath leaveId, JStatus Rejected)]"
  note P = rejectUpdates_props [OF assms(2,3), where leaveId = leaveId]
  have mem: "find (\<lambda>app. leave_id app = leaveId) (markRejected leaveId apps) =
             Some (leave\<lparr>leave_status := Rejected\<rparr>)"
    using assms(1) unfolding markRejected_def
    by (induction apps) (auto split: if_splits)
  have st: "storedLeaveStatus (run db [(Update ?U, True)]) leaveId = Some Rejected"
    unfolding run_single applyCall.simps foldl_reject_status [OF P(3) P(1)] P(4) by simp
  have att: "attendanceAt (run db [(Update ?U, True)]) (leave_empId leave) d = None" if "inRange leave d" for d
  proof -
    have "(AttendanceRecordPath (leave_empId leave) d, JNull) \<in> set ?U"
      unfolding P(2) using that by blast
    then show ?thesis
      unfolding run_single applyCall.simps foldl_reject(3) [OF P(3)] by simp
  qed
  have ends: "inRange leave (leave_startDate leave)" "inRange leave (leave_endDate leave)"
    using assms(2-4) dateLe_refl by (simp_all add: inRange_def)
  show ?thesis
    using rejectLeave_found(1) [OF assms(1-3)] mem P(1,2) st att ends by blast
qed

text \<open>The update issued for the example leave, day by day over the leap day.\<close>

lemma exampleLeave_updates:
  "rejectLeave True ''L1'' [exampleLeave] =
     (Inr (), [exampleLeave\<lparr>leave_status := Rejected\<rparr>],
      [(Update [(LeaveStatusPath ''L1'', JStatus Rejected),
                (AttendanceRecordPath 7 (2024, 2, 27), JNull),
                (AttendanceRecordPath 7 (2024, 2, 28), JNull),
                (AttendanceRecordPath 7 (2024, 2, 29), JNull),
                (AttendanceRecordPath 7 (2024, 3, 1), JNull),
                (AttendanceRecordPath 7 (2024, 3, 2), JNull)], True)])"
  by (simp add: rejectLeave_def exampleLeave_def rejectLoop.simps Date_UTC_def dateLe_def
        setUTCDateNext_def daysInMonth_def isLeapYear_def Let_def)

text \<open>
  The leave from 27 February to 2 March 2024: the records of 29 February and 1 March are
  gone after the rejection.
\<close>

theorem reject_clears_range_witness:
  "find (\<lambda>app. leave_id app = ''L1'') [exampleLeave] = Some exampleLeave
   \<and> calendarDate (leave_startDate exampleLeave) \<and> calendarDate (leave_endDate exampleLeave)
   \<and> dateLe (leave_startDate exampleLeave) (leave_endDate exampleLeave)
   \<and> inRange exampleLeave (2024, 2, 29) \<and> inRange exampleLeave (2024, 3, 1)
   \<and> attendanceAt leaveDb 7 (2024, 2, 29) = Some (attNode Absent)
   \<and> attendanceAt leaveDb 7 (2024, 3, 1) = Some (attNode Absent)
   \<and> (let r = rejectLeave True ''L1'' [exampleLeave]; db' = run leaveDb (snd (snd r))
      in fst r = Inr ()
       \<and> length (snd (snd r)) = 1
       \<and> storedLeaveStatus db' ''L1'' = Some Rejected
       \<and> attendanceAt db' 7 (2024, 2, 29) = None
       \<and> attendanceAt db' 7 (2024, 3, 1) = None)"
proof -
  have h1: "find (\<lambda>app. leave_id app = ''L1'') [exampleLeave] = Some exampleLeave"
    by (simp add: exampleLeave_def)
  have h2: "calendarDate (leave_startDate exampleLeave)" "calendarDate (leave_endDate exampleLeave)"
    by (simp_all add: exampleLeave_def calendarDate_def daysInMonth_def isLeapYear_def)
  have h3: "dateLe (leave_startDate exampleLeave) (leave_endDate exampleLeave)"
    by (simp add: exampleLeave_def dateLe_def)
  have r: "inRange exampleLeave (2024, 2, 29)" "inRange exampleLeave (2024, 3, 1)"
    by (simp_all add: inRange_def exampleLeave_def calendarDate_def dateLe_def daysInMonth_def
          isLeapYear_def)
  have b: "attendanceAt leaveDb 7 (2024, 2, 29) = Some (attNode Absent)"
    "attendanceAt leaveDb 7 (2024, 3, 1) = Some (attNode Absent)"
    by (simp_all add: attendanceAt_def leaveDb_def)
  from reject_clears_range [OF h1 h2 h3, of leaveDb] obtain updates where
    u: "rejectLeave True ''L1'' [exampleLeave] =
          (Inr (), markRejected ''L1'' [exampleLeave], [(Update updates, True)])"
    and s: "storedLeaveStatus (run leaveDb [(Update updates, True)]) ''L1'' = Some Rejected"
    and a: "\<forall>d. inRange exampleLeave d \<longrightarrow>
               attendanceAt (run leaveDb [(Update updates, True)]) (leave_empId exampleLeave) d = None"
    by blast
  have e: "leave_empId exampleLeave = 7" by (simp add: exampleLeave_def)
  show ?thesis
    unfolding Let_def u using h1 h2 h3 r b s a [rule_format, OF r(1)] a [rule_format, OF r(2)]
    by (simp add: e)
qed

lemma deleteLeave_inverted:
  assumes "\<not> dateLe (leave_startDate leave) (leave_endDate leave)" and "empId \<noteq> 0"
  shows "deleteLeave True setDateNext empId leave =
           Some (Inr (), [(Update [(LeaveApplicationPath (leave_id leave), JNull)], True)])"
proof -
  have ne: "leave_startDate leave \<noteq> leave_endDate leave"
    using assms(1) dateLe_refl by metis
  have "\<not> timeLe (leave_startDate leave, 0) (leave_endDate leave, 0)"
    using assms(1) ne by (simp add: timeLe_def)
  then have "deleteLoop setDateNext empId (leave_startDate leave, 0) (leave_endDate leave, 0)
               [(LeaveApplicationPath (leave_id leave), JNull)] =
             Some [(LeaveApplicationPath (leave_id leave), JNull)]"
    by (subst deleteLoop.simps) simp
  then show ?thesis using assms(2) by (simp add: deleteLeave_def)
qed

text \<open>
  Claim C4, as amended. For a leave application whose range is inverted, neither operation
  fails with InvalidRange: \<^verbatim>\<open>rejectLeave\<close> issues one update that sets the status to Rejected
  and deletes no attendance record, and \<^verbatim>\<open>deleteLeave\<close> (for an employee id other than 0)
  issues one update that removes the leave application and deletes no attendance record;
  both return normally when the store accepts the write.
\<close>

theorem inverted_range_no_failure:
  assumes "find (\<lambda>app. leave_id app = leaveId) apps = Some leave"
    and "calendarDate (leave_startDate leave)" and "calendarDate (leave_endDate leave)"
    and "\<not> dateLe (leave_startDate leave) (leave_endDate leave)"
    and "empId \<noteq> 0"
  shows "rejectLeave True leaveId apps =
           (Inr (), markRejected leaveId apps,
            [(Update [(LeaveStatusPath leaveId, JStatus Rejected)], True)])
       \<and> deleteLeave True setDateNext empId leave =
           Some (Inr (), [(Update [(LeaveApplicationPath (leave_id leave), JNull)], True)])"
  using rejectLeave_found(1) [OF assms(1-3)] rejectLoop_inverted [OF assms(4)]
    deleteLeave_inverted [OF assms(4,5)]
  by simp

theorem inverted_range_no_failure_witness:
  "find (\<lambda>app. leave_id app = ''L1'') [invertedLeave] = Some invertedLeave
   \<and> calendarDate (leave_startDate invertedLeave) \<and> calendarDate (leave_endDate invertedLeave)
   \<and> \<not> dateLe (leave_startDate invertedLeave) (leave_endDate invertedLeave)
   \<and> (7::int) \<noteq> 0
   \<and> rejectLeave True ''L1'' [invertedLeave] =
       (Inr (), markRejected ''L1'' [invertedLeave],
        [(Update [(LeaveStatusPath ''L1'', JStatus Rejected)], True)])
   \<and> deleteLeave True utcHostStep 7 invertedLeave =
       Some (Inr (), [(Update [(LeaveApplicationPath (leave_id invertedLeave), JNull)], True)])"
proof -
  have h1: "find (\<lambda>app. leave_id app = ''L1'') [invertedLeave] = Some invertedLeave"
    by (simp add: invertedLeave_def exampleLeave_def)
  have h2: "calendarDate (leave_startDate invertedLeave)" "calendarDate (leave_endDate invertedLeave)"
    by (simp_all add: invertedLeave_def calendarDate_def daysInMonth_def isLeapYear_def)
  have h3: "\<not> dateLe (leave_startDate invertedLeave) (leave_endDate invertedLeave)"
    by (simp add: invertedLeave_def dateLe_def)
  have h4: "(7::int) \<noteq> 0" by simp
  from inverted_range_no_failure [OF h1 h2 h3 h4, of utcHostStep] h1 h2 h3
  show ?thesis by simp
qed

text \<open>
  The claim as stated fails: on an inverted range \<^verbatim>\<open>rejectLeave\<close> returns normally, has
  issued a write, and the stored status has changed from Pending to Rejected;
  \<^verbatim>\<open>deleteLeave\<close> returns normally and has removed the leave application.
\<close>

theorem inverted_range_counterexample:
  "\<not> dateLe (leave_startDate invertedLeave) (leave_endDate invertedLeave)
   \<and> fst (rejectLeave True ''L1'' [invertedLeave]) = Inr ()
   \<and> snd (snd (rejectLeave True ''L1'' [invertedLeave])) =
       [(Update [(LeaveStatusPath ''L1'', JStatus Rejected)], True)]
   \<and> storedLeaveStatus leaveDb ''L1'' = Some Pending
   \<and> storedLeaveStatus (run leaveDb (snd (snd (rejectLeave True ''L1'' [invertedLeave])))) ''L1'' = Some Rejected
   \<and> deleteLeave True utcHostStep 7 invertedLeave =
       Some (Inr (), [(Update [(LeaveApplicationPath ''L1'', JNull)], True)])
   \<and> leaveApplicationNodes leaveDb ''L1'' \<noteq> None
   \<and> leaveApplicationNodes
        (run leaveDb [(Update [(LeaveApplicationPath ''L1'', JNull)], True)]) ''L1'' = None"
proof -
  have inv: "\<not> dateLe (leave_startDate invertedLeave) (leave_endDate invertedLeave)"
    by (simp add: invertedLeave_def dateLe_def)
  have r: "rejectLeave True ''L1'' [invertedLeave] =
       (Inr (), [invertedLeave\<lparr>leave_status := Rejected\<rparr>],
        [(Update [(LeaveStatusPath ''L1'', JStatus Rejected)], True)])"
    by (simp add: rejectLeave_def invertedLeave_def exampleLeave_def rejectLoop.simps Date_UTC_def
          dateLe_def Let_def)
  have d: "deleteLeave True utcHostStep 7 invertedLeave =
       Some (Inr (), [(Update [(LeaveApplicationPath ''L1'', JNull)], True)])"
    by (simp add: deleteLeave_def deleteLoop.simps timeLe_def invertedLeave_def exampleLeave_def
          dateLe_def)
  show ?thesis
    unfolding r d using inv
    by (simp add: run_single storedLeaveStatus_def leaveDb_def)
qed

text \<open>
  Claim C7, as amended. \<^verbatim>\<open>approveLeave\<close> issues one store call, an update of
  \<^verbatim>\<open>leaveApplications/{leaveId}/status\<close> to Approved, whether or not the id exists; it
  changes no attendance record, no faculty record and no allocation marker. When the store
  accepts the call, \<^verbatim>\<open>approveLeave\<close> returns normally, the stored status is Approved and the
  in-memory list has the status Approved at that id; when the store call fails, it throws
  "Failed to approve leave", the store is unchanged and the in-memory list is the
  pre-operation snapshot.
\<close>

theorem approve_status_only:
  "approveLeave True leaveId apps =
     (Inr (), markApproved leaveId apps, [(Update [(LeaveStatusPath leaveId, JStatus Approved)], True)])
   \<and> approveLeave False leaveId apps =
       (Inl FailedToApprove, apps, [(Update [(LeaveStatusPath leaveId, JStatus Approved)], False)])
   \<and> attendance (run db (snd (snd (approveLeave True leaveId apps)))) = attendance db
   \<and> faculty (run db (snd (snd (approveLeave True leaveId apps)))) = faculty db
   \<and> monthlyAllocations (run db (snd (snd (approveLeave True leaveId apps)))) = monthlyAllocations db
   \<and> storedLeaveStatus (run db (snd (snd (approveLeave True leaveId apps)))) leaveId = Some Approved
   \<and> run db (snd (snd (approveLeave False leaveId apps))) = db"
  by (simp add: approveLeave_def Let_def markApproved_def run_single run_failed storedLeaveStatus_def)

text \<open>
  The claim as stated fails: approving an id that is neither in the in-memory list nor in the
  store returns normally, not with NotFound, and leaves a node with the status Approved
  behind.
\<close>

theorem approve_absent_id_counterexample:
  "''L9'' \<notin> set (map leave_id [exampleLeave])
   \<and> leaveApplicationNodes leaveDb ''L9'' = None
   \<and> approveLeave True ''L9'' [exampleLeave] =
       (Inr (), [exampleLeave], [(Update [(LeaveStatusPath ''L9'', JStatus Approved)], True)])
   \<and> storedLeaveStatus (run leaveDb (snd (snd (approveLeave True ''L9'' [exampleLeave])))) ''L9'' =
       Some Approved"
  by (simp add: approveLeave_def Let_def exampleLeave_def leaveDb_def run_single
        storedLeaveStatus_def)

section \<open>Finalizing a month\<close>

lemma deductionUpdates_props:
  assumes "distinct (map ms_empId items)"
  shows "\<forall>w \<in> set (fst (deductionUpdates items)). casualLeaveWrite w"
    and "distinct (map fst (fst (deductionUpdates items)))"
    and "map_of (fst (deductionUpdates items)) (FacultyCasualLeavesPath e) =
            (case find (\<lambda>item. ms_empId item = e) items of
               None \<Rightarrow> None
             | Some item \<Rightarrow>
                 if 0 < casualLeavesUsed item
                 then Some (JNum (casualLeavesAvailable item - casualLeavesUsed item)) else None)"
    and "snd (deductionUpdates items) = length (filter (\<lambda>item. 0 < casualLeavesUsed item) items)"
  using casualUpdates_foldl [of ms_empId items "[]" "\<lambda>item. 0 < casualLeavesUsed item"
      "\<lambda>item. casualLeavesAvailable item - casualLeavesUsed item" 0, OF assms]
  unfolding deductionUpdates_def
  by (simp_all split: option.splits)

lemma find_distinct_key:
  "distinct (map key xs) \<Longrightarrow> x \<in> set xs \<Longrightarrow> find (\<lambda>y. key y = key x) xs = Some x"
proof (induction xs)
  case Nil
  then show ?case by simp
next
  case (Cons a xs)
  show ?case
  proof (cases "a = x")
    case True
    then show ?thesis by simp
  next
    case False
    with Cons.prems have x: "x \<in> set xs" by simp
    have "key a \<notin> key ` set xs" using Cons.prems(1) by simp
    with x have "key a \<noteq> key x" by (metis imageI)
    with Cons x show ?thesis by simp
  qed
qed

lemma finalize_ok:
  assumes "item \<in> set (summaryData s)" and "0 < casualLeavesUsed item"
    and "distinct (map ms_empId (summaryData s))"
  shows "finalizeAndDeductCLs True s =
           (Inr (DeductionsApplied (snd (deductionUpdates (summaryData s)))),
            s\<lparr>facultyList := map (deductInMemory (summaryData s)) (facultyList s)\<rparr>,
            [(Update (fst (deductionUpdates (summaryData s))), True)])"
proof -
  have ne: "summaryData s \<noteq> []" using assms(1) by auto
  have "item \<in> set (filter (\<lambda>item. 0 < casualLeavesUsed item) (summaryData s))"
    using assms by simp
  then have "filter (\<lambda>item. 0 < casualLeavesUsed item) (summaryData s) \<noteq> []"
    by (metis empty_iff empty_set)
  then have "0 < snd (deductionUpdates (summaryData s))"
    unfolding deductionUpdates_props(4) [OF assms(3)] length_greater_0_conv .
  then show ?thesis using ne by (simp add: finalizeAndDeductCLs_def Let_def)
qed

lemma stored_after_deduction:
  assumes "item \<in> set (summaryData s)" and "0 < casualLeavesUsed item"
    and "distinct (map ms_empId (summaryData s))"
  shows "storedCasualLeaves (run db [(Update (fst (deductionUpdates (summaryData s))), True)]) (ms_empId item) =
           Some (casualLeavesAvailable item - casualLeavesUsed item)"
proof -
  note P = deductionUpdates_props [OF assms(3)]
  have m: "map_of (fst (deductionUpdates (summaryData s))) (FacultyCasualLeavesPath (ms_empId item)) =
             Some (JNum (casualLeavesAvailable item - casualLeavesUsed item))"
    unfolding P(3) find_distinct_key [OF assms(3,1)] using assms(2) by simp
  show ?thesis
    unfolding storedCasualLeaves_def run_single applyCall.simps
      foldl_casual_faculty [OF P(1) P(2)] m
    by simp
qed

lemma finalize_stored:
  assumes "distinct (map ms_empId (summaryData s))"
  shows "storedCasualLeaves (run db (snd (snd (finalizeAndDeductCLs True s)))) e =
           (case find (\<lambda>item. ms_empId item = e) (summaryData s) of
              None \<Rightarrow> storedCasualLeaves db e
            | Some item \<Rightarrow>
                if 0 < casualLeavesUsed item
                then Some (casualLeavesAvailable item - casualLeavesUsed item)
                else storedCasualLeaves db e)"
proof -
  note P = deductionUpdates_props [OF assms]
  let ?U = "fst (deductionUpdates (summaryData s))"
  have upd: "storedCasualLeaves (run db [(Update ?U, True)]) e =
           (case find (\<lambda>item. ms_empId item = e) (summaryData s) of
              None \<Rightarrow> storedCasualLeaves db e
            | Some item \<Rightarrow>
                if 0 < casualLeavesUsed item
                then Some (casualLeavesAvailable item - casualLeavesUsed item)
                else storedCasualLeaves db e)"
    unfolding storedCasualLeaves_def run_single applyCall.simps
      foldl_casual_faculty [OF P(1) P(2)] P(3)
    by (simp split: option.splits)
  show ?thesis
  proof (cases "summaryData s = [] \<or> snd (deductionUpdates (summaryData s)) = 0")
    case False
    then have "snd (snd (finalizeAndDeductCLs True s)) = [(Update ?U, True)]"
      by (simp add: finalizeAndDeductCLs_def Let_def)
    then show ?thesis using upd by simp
  next
    case True
    then have calls: "snd (snd (finalizeAndDeductCLs True s)) = []"
      by (auto simp: finalizeAndDeductCLs_def Let_def)
    from True have "filter (\<lambda>item. 0 < casualLeavesUsed item) (summaryData s) = []"
      unfolding P(4) by auto
    then have none: "\<And>item. item \<in> set (summaryData s) \<Longrightarrow> \<not> 0 < casualLeavesUsed item"
      by (simp add: filter_empty_conv)
    have "\<And>item. find (\<lambda>item. ms_empId item = e) (summaryData s) = Some item \<Longrightarrow>
            \<not> 0 < casualLeavesUsed item"
      using none by (metis find_Some_iff nth_mem)
    then show ?thesis
      unfolding calls run_Nil by (simp split: option.splits)
  qed
qed

lemma calculateSummary_eq:
  assumes "0 < monthlyWorkingDays s" and "facultyList s \<noteq> []"
  shows "calculateSummary s =
           s\<lparr>summaryData :=
                map (summaryRow (actualWorkingDays s) (permissionLimit s)
                       (attendanceByEmp (filter (\<lambda>r. startsWith (att_date r) (selectedMonth s)) (rawAttendance s))))
                  (facultyList s)\<rparr>"
  using assms by (simp add: calculateSummary_def Let_def)

lemma deductInMemory_empId: "fac_empId (deductInMemory items f) = fac_empId f"
  by (simp add: deductInMemory_def split: option.splits)

lemma rowRecords_cong: "fac_empId f' = fac_empId f \<Longrightarrow> rowRecords b f' = rowRecords b f"
  by (simp add: rowRecords_def)

text \<open>
  Claim C5, as amended. \<^verbatim>\<open>finalizeAndDeductCLs\<close> is not idempotent. It writes
  \<^verbatim>\<open>casualLeavesAvailable - casualLeavesUsed\<close> for every row of the summary with casual
  leaves used and lowers the balances of the faculty list, from which the hook computes the
  summary again. A second call then deducts what the new summary uses, the smaller of the
  absent days and the balance left: the stored balance after the two calls is
  available - used - min(absentDays, available - used). That is available - 2 * used exactly
  when the balance left after the first call still covers the absent days.
\<close>

theorem finalize_twice_in_sequence:
  assumes "0 < monthlyWorkingDays s" and "distinct (map fac_empId (facultyList s))"
    and "i < length (facultyList s)"
    and "0 < casualLeavesUsed (summaryData (calculateSummary s) ! i)"
  shows "let s0 = calculateSummary s; row = summaryData s0 ! i;
             available = casualLeavesAvailable row; used = casualLeavesUsed row;
             absentDays = max 0 (actualWorkingDays s - presentDays row);
             r1 = finalizeAndDeductCLs True s0;
             db1 = run db (snd (snd r1));
             s1 = calculateSummary (fst (snd r1));
             r2 = finalizeAndDeductCLs True s1;
             db2 = run db1 (snd (snd r2))
         in storedCasualLeaves db1 (ms_empId row) = Some (available - used)
          \<and> casualLeavesAvailable (summaryData s1 ! i) = available - used
          \<and> casualLeavesUsed (summaryData s1 ! i) = min absentDays (available - used)
          \<and> storedCasualLeaves db2 (ms_empId row) =
              Some (available - used - min absentDays (available - used))
          \<and> ((storedCasualLeaves db2 (ms_empId row) = Some (available - 2 * used))
               = (absentDays \<le> available - used))"
proof -
  define fl where "fl = facultyList s"
  define w where "w = actualWorkingDays s"
  define l where "l = permissionLimit s"
  define b where "b = attendanceByEmp (filter (\<lambda>r. startsWith (att_date r) (selectedMonth s)) (rawAttendance s))"
  define f where "f = fl ! i"
  define rows0 where "rows0 = map (summaryRow w l b) fl"
  define row where "row = summaryRow w l b f"
  define fl1 where "fl1 = map (deductInMemory rows0) fl"
  define rows1 where "rows1 = map (summaryRow w l b) fl1"
  define absent where "absent = max 0 (w - presentDays row)"
  have ne: "facultyList s \<noteq> []" using assms(3) by auto
  have i: "i < length fl" using assms(3) by (simp add: fl_def)
  have s0: "calculateSummary s = s\<lparr>summaryData := rows0\<rparr>"
    unfolding rows0_def w_def l_def b_def fl_def by (rule calculateSummary_eq [OF assms(1) ne])
  have row_i: "rows0 ! i = row" using i by (simp add: rows0_def row_def f_def)
  have row_in: "row \<in> set rows0" using i row_i by (metis length_map nth_mem rows0_def)
  have ids0: "map ms_empId rows0 = map fac_empId fl"
    by (simp add: rows0_def row_empId comp_def)
  have d0: "distinct (map ms_empId rows0)" unfolding ids0 fl_def by (rule assms(2))
  have used0: "0 < casualLeavesUsed row" using assms(4) unfolding s0 by (simp add: row_i)
  have find0: "find (\<lambda>item. ms_empId item = ms_empId row) rows0 = Some row"
    by (rule find_distinct_key [OF d0 row_in])
  have e: "ms_empId row = fac_empId f" by (simp add: row_def row_empId)
  \<comment> \<open>the first call\<close>
  have r1: "finalizeAndDeductCLs True (s\<lparr>summaryData := rows0\<rparr>) =
      (Inr (DeductionsApplied (snd (deductionUpdates rows0))),
       s\<lparr>summaryData := rows0, facultyList := fl1\<rparr>,
       [(Update (fst (deductionUpdates rows0)), True)])"
    using finalize_ok [of row "s\<lparr>summaryData := rows0\<rparr>"] row_in used0 d0
    by (simp add: fl1_def fl_def)
  have st1: "storedCasualLeaves (run db [(Update (fst (deductionUpdates rows0)), True)]) (ms_empId row) =
      Some (casualLeavesAvailable row - casualLeavesUsed row)"
    using stored_after_deduction [of row "s\<lparr>summaryData := rows0\<rparr>" db] row_in used0 d0 by simp
  \<comment> \<open>the summary computed again from the new faculty list\<close>
  have fl1_ne: "fl1 \<noteq> []" using ne by (simp add: fl1_def fl_def)
  have s1: "calculateSummary (s\<lparr>summaryData := rows0, facultyList := fl1\<rparr>) =
      s\<lparr>summaryData := rows1, facultyList := fl1\<rparr>"
    using calculateSummary_eq [of "s\<lparr>summaryData := rows0, facultyList := fl1\<rparr>"] assms(1) fl1_ne
    by (simp add: rows1_def w_def l_def b_def actualWorkingDays_def holidaysInMonth_def)
  have ids1: "map ms_empId rows1 = map fac_empId fl"
    by (simp add: rows1_def fl1_def row_empId deductInMemory_empId comp_def)
  have d1: "distinct (map ms_empId rows1)" unfolding ids1 fl_def by (rule assms(2))
  define f1 where "f1 = deductInMemory rows0 f"
  define row1 where "row1 = summaryRow w l b f1"
  have row1_i: "rows1 ! i = row1" using i by (simp add: rows1_def fl1_def row1_def f1_def f_def)
  have row1_in: "row1 \<in> set rows1"
    using i row1_i by (metis fl1_def length_map nth_mem rows1_def)
  have e1: "ms_empId row1 = ms_empId row"
    by (simp add: row1_def row_def row_empId f1_def deductInMemory_empId)
  have find1: "find (\<lambda>item. ms_empId item = ms_empId row) rows1 = Some row1"
    using find_distinct_key [OF d1 row1_in] unfolding e1 .
  \<comment> \<open>the balance and the leaves used in the second summary\<close>
  have avail0: "casualLeavesAvailable row = or0 (fac_casualLeaves f)"
    by (simp add: row_def row_available)
  have used0_eq: "casualLeavesUsed row = min absent (or0 (fac_casualLeaves f))"
    by (simp add: row_def row_used absent_def)
  have pos: "0 < or0 (fac_casualLeaves f)" using used0 used0_eq by simp
  then obtain c where c: "fac_casualLeaves f = Some c" by (cases "fac_casualLeaves f") (simp_all add: or0_def)
  have f1_cl: "fac_casualLeaves f1 = Some (c - casualLeavesUsed row)"
    unfolding f1_def using find0 used0 c by (simp add: deductInMemory_def e)
  have p1: "presentDays row1 = presentDays row"
    unfolding row1_def row_def row_presentDays
    using rowRecords_cong [of f1 f b] by (simp add: f1_def deductInMemory_empId)
  have avail1: "casualLeavesAvailable row1 = casualLeavesAvailable row - casualLeavesUsed row"
    unfolding avail0 by (simp add: row1_def row_available f1_cl c or0_def)
  have used1: "casualLeavesUsed row1 = min absent (casualLeavesAvailable row - casualLeavesUsed row)"
    using p1 unfolding avail0 absent_def
    by (simp add: row1_def row_used f1_cl c or0_def row_def)
  have nonneg: "0 \<le> casualLeavesUsed row1"
    unfolding used1 using used0_eq avail0 by (simp add: absent_def)
  \<comment> \<open>the second call\<close>
  have st2: "storedCasualLeaves
        (run (run db [(Update (fst (deductionUpdates rows0)), True)])
           (snd (snd (finalizeAndDeductCLs True (s\<lparr>summaryData := rows1, facultyList := fl1\<rparr>)))))
        (ms_empId row) =
      Some (casualLeavesAvailable row - casualLeavesUsed row
              - min absent (casualLeavesAvailable row - casualLeavesUsed row))"
  proof (cases "0 < casualLeavesUsed row1")
    case True
    then show ?thesis
      using finalize_stored [of "s\<lparr>summaryData := rows1, facultyList := fl1\<rparr>"
          "run db [(Update (fst (deductionUpdates rows0)), True)]" "ms_empId row"] d1
      by (simp add: find1 avail1 used1)
  next
    case False
    with nonneg have z: "casualLeavesUsed row1 = 0" by simp
    show ?thesis
      using finalize_stored [of "s\<lparr>summaryData := rows1, facultyList := fl1\<rparr>"
          "run db [(Update (fst (deductionUpdates rows0)), True)]" "ms_empId row"] d1 st1
      using z by (simp add: find1 used1 [symmetric])
  qed
  \<comment> \<open>when the second deduction equals the first\<close>
  have twice: "(casualLeavesAvailable row - casualLeavesUsed row
                  - min absent (casualLeavesAvailable row - casualLeavesUsed row)
                = casualLeavesAvailable row - 2 * casualLeavesUsed row)
               = (absent \<le> casualLeavesAvailable row - casualLeavesUsed row)"
    using used0 unfolding used0_eq avail0 by (auto simp: min_def)
  show ?thesis
    unfolding Let_def s0 r1 fst_conv snd_conv s1
    using st1 st2 twice avail1 used1
    by (simp add: row_i row1_i absent_def w_def)
qed

text \<open>
  A month with a balance of 10 and 3 absent days: the store holds 7 after the first call and
  4 after the second, which is available - 2 * used.
\<close>

lemma ampleMonth_row:
  "0 < monthlyWorkingDays ampleMonth" "distinct (map fac_empId (facultyList ampleMonth))"
  "0 < length (facultyList ampleMonth)" "actualWorkingDays ampleMonth = 20"
  "ms_empId (summaryData (calculateSummary ampleMonth) ! 0) = 1"
  "presentDays (summaryData (calculateSummary ampleMonth) ! 0) = 17"
  "casualLeavesAvailable (summaryData (calculateSummary ampleMonth) ! 0) = 10"
  "casualLeavesUsed (summaryData (calculateSummary ampleMonth) ! 0) = 3"
proof -
  show h: "0 < monthlyWorkingDays ampleMonth" "0 < length (facultyList ampleMonth)"
    and "distinct (map fac_empId (facultyList ampleMonth))"
    by (simp_all add: ampleMonth_def scenario1_def)
  show w: "actualWorkingDays ampleMonth = 20"
    by (simp add: actualWorkingDays_def holidaysInMonth_def ampleMonth_def scenario1_def)
  have f: "facultyList ampleMonth ! 0 = scenarioFaculty (Some 10)" "permissionLimit ampleMonth = 2"
    by (simp_all add: ampleMonth_def scenario1_def)
  have r: "rowRecords (attendanceByEmp (filter (\<lambda>r. startsWith (att_date r) (selectedMonth ampleMonth))
             (rawAttendance ampleMonth))) (scenarioFaculty (Some 10)) =
           map (recordOn 1 OnTime) [1, 2, 3, 4, 5, 6, 7, 8, 9, 10, 11, 12, 13, 14, 15, 16, 17]"
    unfolding rowRecords_inMonth
    by (simp add: recordsInMonth_def ampleMonth_def scenario1_def recordOn_def startsWith_def
          scenarioFaculty_def)
  have s: "att_status (recordOn a st d) = st" for a st d
    by (simp add: recordOn_def)
  note nth = calculateSummary_nth [OF h, unfolded f w]
  show "ms_empId (summaryData (calculateSummary ampleMonth) ! 0) = 1"
    unfolding nth row_empId by (simp add: scenarioFaculty_def)
  show p: "presentDays (summaryData (calculateSummary ampleMonth) ! 0) = 17"
    unfolding nth row_presentDays r by (simp add: s)
  show "casualLeavesAvailable (summaryData (calculateSummary ampleMonth) ! 0) = 10"
    unfolding nth row_available by (simp add: scenarioFaculty_def or0_def)
  show "casualLeavesUsed (summaryData (calculateSummary ampleMonth) ! 0) = 3"
    using p unfolding nth row_used by (simp add: scenarioFaculty_def or0_def)
qed

theorem finalize_twice_in_sequence_witness:
  "0 < monthlyWorkingDays ampleMonth \<and> distinct (map fac_empId (facultyList ampleMonth))
   \<and> (0::nat) < length (facultyList ampleMonth)
   \<and> 0 < casualLeavesUsed (summaryData (calculateSummary ampleMonth) ! 0)
   \<and> casualLeavesAvailable (summaryData (calculateSummary ampleMonth) ! 0) = 10
   \<and> casualLeavesUsed (summaryData (calculateSummary ampleMonth) ! 0) = 3
   \<and> storedCasualLeaves ampleDb 1 = Some 10
   \<and> (let r1 = finalizeAndDeductCLs True (calculateSummary ampleMonth);
          db1 = run ampleDb (snd (snd r1));
          s1 = calculateSummary (fst (snd r1));
          r2 = finalizeAndDeductCLs True s1;
          db2 = run db1 (snd (snd r2))
      in storedCasualLeaves db1 1 = Some 7
       \<and> casualLeavesAvailable (summaryData s1 ! 0) = 7
       \<and> casualLeavesUsed (summaryData s1 ! 0) = 3
       \<and> storedCasualLeaves db2 1 = Some 4)"
proof -
  note R = ampleMonth_row
  have b: "storedCasualLeaves ampleDb 1 = Some 10"
    by (simp add: storedCasualLeaves_def ampleDb_def payrollDb_def exampleNode_def)
  have u: "0 < casualLeavesUsed (summaryData (calculateSummary ampleMonth) ! 0)"
    unfolding R(8) by simp
  note T = finalize_twice_in_sequence [OF R(1) R(2) R(3) u, of ampleDb, unfolded Let_def R(4-8)]
  from T show ?thesis
    unfolding Let_def using R(1-3) b by (simp add: R(7,8))
qed

lemma monthEnd_summary: "summaryData monthEnd = [scenarioRow]"
proof -
  have w: "actualWorkingDays scenario1 = 20"
    by (simp add: actualWorkingDays_def holidaysInMonth_def scenario1_def)
  have r: "rowRecords (attendanceByEmp (filter (\<lambda>r. startsWith (att_date r) (selectedMonth scenario1))
             (rawAttendance scenario1))) (scenarioFaculty (Some 2)) =
           map (recordOn 1 OnTime) [1, 2, 3, 4, 5, 6, 7, 8, 9, 10, 11, 12, 13, 14, 15]"
    unfolding rowRecords_inMonth
    by (simp add: recordsInMonth_def scenario1_def recordOn_def startsWith_def scenarioFaculty_def)
  have s: "att_status (recordOn a st d) = st" for a st d
    by (simp add: recordOn_def)
  let ?row = "summaryRow 20 2 (attendanceByEmp (filter (\<lambda>r. startsWith (att_date r) (selectedMonth scenario1))
             (rawAttendance scenario1))) (scenarioFaculty (Some 2))"
  have sd: "summaryData monthEnd = [?row]"
  proof -
    have "facultyList scenario1 = [scenarioFaculty (Some 2)]" "monthlyWorkingDays scenario1 = 20"
      "permissionLimit scenario1 = 2"
      by (simp_all add: scenario1_def)
    then show ?thesis
      unfolding monthEnd_def calculateSummary_def w Let_def by simp
  qed
  have p: "presentDays ?row = 15" unfolding row_presentDays r by (simp add: s)
  have a: "casualLeavesAvailable ?row = 2" unfolding row_available by (simp add: scenarioFaculty_def or0_def)
  have u: "casualLeavesUsed ?row = 2" unfolding row_used p by (simp add: scenarioFaculty_def or0_def)
  have un: "unpaidLeave ?row = 3" unfolding row_unpaid p u by simp
  have pm: "permissions ?row = 0" unfolding row_permissions r by (simp add: s)
  have hd: "halfDayLeaves ?row = 0" unfolding row_halfDay r by (simp add: s)
  have tl: "totalLeaves ?row = 3" unfolding row_totalLeaves un hd by simp
  have pd: "payableDays ?row = 17" unfolding row_payableDays tl by simp
  have cs: "calculatedSalary ?row = Some 2550"
    unfolding row_salary pd by (simp add: scenarioFaculty_def or0_def salary_2550)
  have id: "ms_empId ?row = 1" "ms_name ?row = Some ''A''" "ms_dept ?row = Some ''CSE''"
    "ms_designation ?row = Some ''AP''" "ms_monthlySalary ?row = Some 3000"
    unfolding row_empId row_name row_dept row_designation row_monthlySalary
    by (simp_all add: scenarioFaculty_def)
  have "?row = scenarioRow"
    unfolding scenarioRow_def
    by (rule MonthlySummary.equality) (simp_all add: p a u un pm hd tl pd cs id)
  then show ?thesis unfolding sd by simp
qed

lemma monthEnd_fields:
  "facultyList monthEnd = [scenarioFaculty (Some 2)]"
  "rawAttendance monthEnd = rawAttendance scenario1"
  "holidays monthEnd = []" "selectedMonth monthEnd = (2024, 1)"
  "monthlyWorkingDays monthEnd = 20" "permissionLimit monthEnd = 2"
  by (simp_all add: monthEnd_def calculateSummary_def Let_def scenario1_def)

lemma finalize_monthEnd:
  "finalizeAndDeductCLs True monthEnd =
     (Inr (DeductionsApplied 1), monthEnd\<lparr>facultyList := [scenarioFaculty (Some 0)]\<rparr>,
      [(Update [(FacultyCasualLeavesPath 1, JNum 0)], True)])"
proof -
  have d: "deductionUpdates [scenarioRow] = ([(FacultyCasualLeavesPath 1, JNum 0)], 1)"
    by (simp add: deductionUpdates_def scenarioRow_def)
  have m: "deductInMemory [scenarioRow] (scenarioFaculty (Some 2)) = scenarioFaculty (Some 0)"
    by (simp add: deductInMemory_def scenarioRow_def scenarioFaculty_def)
  show ?thesis
    by (simp add: finalizeAndDeductCLs_def Let_def monthEnd_summary monthEnd_fields d m)
qed

lemma afterFirst_eq: "afterFirst = monthEnd\<lparr>facultyList := [scenarioFaculty (Some 0)]\<rparr>"
  and storeAfterFirst_eq:
    "storeAfterFirst = run payrollDb [(Update [(FacultyCasualLeavesPath 1, JNum 0)], True)]"
  by (simp_all add: afterFirst_def storeAfterFirst_def finalize_monthEnd)

lemma finalize_recomputed:
  "snd (snd (finalizeAndDeductCLs True (calculateSummary afterFirst))) = []"
proof -
  let ?b = "attendanceByEmp (filter (\<lambda>r. startsWith (att_date r) (selectedMonth afterFirst))
             (rawAttendance afterFirst))"
  let ?row = "summaryRow (actualWorkingDays afterFirst) (permissionLimit afterFirst) ?b
                (scenarioFaculty (Some 0))"
  have fl: "facultyList afterFirst = [scenarioFaculty (Some 0)]" "0 < monthlyWorkingDays afterFirst"
    unfolding afterFirst_eq by (simp_all add: monthEnd_fields)
  have sd: "summaryData (calculateSummary afterFirst) = [?row]"
    using fl by (simp add: calculateSummary_def Let_def)
  have "0 \<le> max 0 (actualWorkingDays afterFirst - presentDays ?row)" by simp
  then have u: "casualLeavesUsed ?row = 0"
    unfolding row_used by (simp add: scenarioFaculty_def or0_def)
  have d: "deductionUpdates [?row] = ([], 0)"
    by (simp add: deductionUpdates_def u)
  show ?thesis
    by (simp add: finalizeAndDeductCLs_def Let_def sd d)
qed

text \<open>
  The claim as stated fails in the first scenario of the specification, with a balance of 2
  and 5 absent days: the first call writes 0, the summary computed again uses no casual
  leave, and the second call writes nothing. The stored balance after the two calls is 0;
  available - 2 * used would be -2.
\<close>

theorem finalize_double_deduction_counterexample:
  "casualLeavesAvailable (summaryData monthEnd ! 0) = 2
   \<and> casualLeavesUsed (summaryData monthEnd ! 0) = 2
   \<and> ms_empId (summaryData monthEnd ! 0) = 1
   \<and> storedCasualLeaves payrollDb 1 = Some 2
   \<and> storedCasualLeaves storeAfterFirst 1 = Some 0
   \<and> snd (snd (finalizeAndDeductCLs True (calculateSummary afterFirst))) = []
   \<and> storedCasualLeaves
        (run storeAfterFirst (snd (snd (finalizeAndDeductCLs True (calculateSummary afterFirst))))) 1 = Some 0
   \<and> casualLeavesAvailable (summaryData monthEnd ! 0) - 2 * casualLeavesUsed (summaryData monthEnd ! 0) = - 2"
  unfolding finalize_recomputed storeAfterFirst_eq monthEnd_summary
  by (simp add: scenarioRow_def run_single run_Nil storedCasualLeaves_def payrollDb_def exampleNode_def)

end
